theory Spec2Isabelle
  imports Complex_Main
begin

text \<open>
  A model of the flyer generator: colour derivation (\<^verbatim>\<open>ImageGenerator.darkenColor\<close>,
  \<^verbatim>\<open>getContrastColor\<close>, \<^verbatim>\<open>FlyerGenerator.getAccentColor\<close>), the acquisition of text
  variations with its fallback bank (\<^verbatim>\<open>TextGenerator\<close>), the composition of the vector
  document (\<^verbatim>\<open>ImageGenerator.createSVG\<close>) and the batch loops (\<^verbatim>\<open>FlyerGenerator\<close>).
  The functions keep the names they have in the source; a parameter or local variable
  whose name is also a field of a record carries a prime.  The generative source, the
  file system and the rasteriser are outside the program: what they answer is a parameter
  of the model.
\<close>

section \<open>JavaScript numbers\<close>

text \<open>
  A JavaScript \<^verbatim>\<open>number\<close> is an IEEE-754 double.  The model covers the finite ones and
  represents each by its exact rational value; an arithmetic operation computes the exact
  result and rounds it to the nearest double, ties to even (\<open>fl\<close>).  Overflow, underflow
  to subnormals and the sign of zero are outside the model: the canvas sizes, font
  sizes and colour channels of this program stay far inside the normal range.
  \<open>NaN\<close> is modelled where the code can produce it (a colour channel that does not
  parse, a division by zero) by \<open>None\<close> or by a constructor of its own.
\<close>

type_synonym number = rat

function bit_length :: "int \<Rightarrow> int" where
  "bit_length n = (if n \<le> 0 then 0 else 1 + bit_length (n div 2))"
  by pat_completeness auto
termination
  by (relation "measure nat") auto

declare bit_length.simps [simp del]

definition pow2 :: "int \<Rightarrow> rat" where
  "pow2 e = (if 0 \<le> e then 2 ^ nat e else 1 / 2 ^ nat (- e))"

text \<open>The binary exponent of a positive rational: the \<open>e\<close> with \<open>2^e \<le> a < 2^(e+1)\<close>.\<close>

definition ilog2 :: "rat \<Rightarrow> int" where
  "ilog2 a = (case quotient_of a of (p, q) \<Rightarrow>
     (let k = bit_length p - bit_length q
      in if pow2 k \<le> a then k else k - 1))"

definition round_half_even :: "rat \<Rightarrow> int" where
  "round_half_even q = (let n = \<lfloor>q\<rfloor>; f = q - of_int n
     in if f < 1 / 2 then n else if 1 / 2 < f then n + 1
        else if even n then n else n + 1)"

text \<open>Rounding to the nearest double: 53 significant bits.\<close>

definition fl :: "rat \<Rightarrow> number" where
  "fl x = (if x = 0 then 0 else
     (let a = \<bar>x\<bar>; u = pow2 (ilog2 a - 52)
      in sgn x * of_int (round_half_even (a / u)) * u))"

definition jsadd :: "number \<Rightarrow> number \<Rightarrow> number" where
  "jsadd a b = fl (a + b)"

definition jssub :: "number \<Rightarrow> number \<Rightarrow> number" where
  "jssub a b = fl (a - b)"

definition jsmul :: "number \<Rightarrow> number \<Rightarrow> number" where
  "jsmul a b = fl (a * b)"

text \<open>Division by a divisor other than zero; the callers treat zero themselves.\<close>

definition jsdiv :: "number \<Rightarrow> number \<Rightarrow> number" where
  "jsdiv a b = fl (a / b)"

text \<open>The unit roundoff: one rounding changes a value by at most this fraction of it.\<close>

definition unit_roundoff :: rat where
  "unit_roundoff = 1 / 2 ^ 53"

text \<open>\<^verbatim>\<open>a % b\<close> on integers: the remainder takes the sign of the dividend.\<close>

definition jsrem :: "int \<Rightarrow> int \<Rightarrow> int" where
  "jsrem a b = sgn a * (\<bar>a\<bar> mod \<bar>b\<bar>)"

section \<open>JavaScript strings\<close>

text \<open>
  A string is a list of UTF-16 code units; a \<^typ>\<open>char\<close> stands for one code unit
  below 256, so the model covers strings of Latin-1 characters (all the literals of the
  program are of this kind).  \<^verbatim>\<open>s.length\<close> is \<^const>\<open>length\<close>,
  \<^verbatim>\<open>s.substring(0, n)\<close> is \<^term>\<open>take n s\<close>.
\<close>

definition substring :: "string \<Rightarrow> nat \<Rightarrow> nat \<Rightarrow> string" where
  "substring s a b = take (max a b - min a b) (drop (min a b) s)"

text \<open>\<^verbatim>\<open>s.split(' ')\<close>: the pieces between single spaces, empty pieces included.\<close>

fun split_space :: "string \<Rightarrow> string \<Rightarrow> string list" where
  "split_space piece [] = [piece]"
| "split_space piece (c # cs) =
     (if c = CHR '' '' then piece # split_space [] cs else split_space (piece @ [c]) cs)"

definition split :: "string \<Rightarrow> string list" where
  "split s = split_space [] s"

text \<open>
  The first occurrence of a pattern: the text before it and the text after it.
\<close>

fun find_first :: "string \<Rightarrow> string \<Rightarrow> (string \<times> string) option" where
  "find_first pat [] = (if pat = [] then Some ([], []) else None)"
| "find_first pat (c # cs) =
     (if take (length pat) (c # cs) = pat then Some ([], drop (length pat) (c # cs))
      else (case find_first pat cs of
              None \<Rightarrow> None
            | Some (lead, rest) \<Rightarrow> Some (c # lead, rest)))"

text \<open>
  The replacement text of \<^verbatim>\<open>String.prototype.replace\<close> with a string pattern:
  \<^verbatim>\<open>$$\<close> is a dollar sign, \<^verbatim>\<open>$&\<close> the match, \<^verbatim>\<open>$`\<close> the text before the
  match and \<^verbatim>\<open>$'\<close> the text after it; any other character stands for itself.
\<close>

fun substitution :: "string \<Rightarrow> string \<Rightarrow> string \<Rightarrow> string \<Rightarrow> string" where
  "substitution matched lead rest (c # d # cs) =
     (if c = CHR ''$'' \<and> d = CHR ''$'' then CHR ''$'' # substitution matched lead rest cs
      else if c = CHR ''$'' \<and> d = CHR ''&'' then matched @ substitution matched lead rest cs
      else if c = CHR ''$'' \<and> d = CHR 0x60 then lead @ substitution matched lead rest cs
      else if c = CHR ''$'' \<and> d = CHR 0x27 then rest @ substitution matched lead rest cs
      else c # substitution matched lead rest (d # cs))"
| "substitution matched lead rest cs = cs"

text \<open>\<^verbatim>\<open>s.replace(pat, rep)\<close> with a string pattern: only the first occurrence.\<close>

definition replace :: "string \<Rightarrow> string \<Rightarrow> string \<Rightarrow> string" where
  "replace s pat rep =
     (case find_first pat s of
        None \<Rightarrow> s
      | Some (lead, rest) \<Rightarrow> lead @ substitution pat lead rest rep @ rest)"

text \<open>\<^verbatim>\<open>s.padStart(2, '0')\<close>.\<close>

definition padStart2 :: "string \<Rightarrow> string" where
  "padStart2 s = replicate (2 - length s) (CHR ''0'') @ s"

subsection \<open>Numbers to text and back\<close>

definition digit_char :: "nat \<Rightarrow> char" where
  "digit_char d = ''0123456789abcdef'' ! d"

text \<open>\<^verbatim>\<open>n.toString(16)\<close> on an integer: lower-case digits, a minus sign when negative.\<close>

fun hex_digits :: "nat \<Rightarrow> string" where
  "hex_digits n = (if n < 16 then [digit_char n] else hex_digits (n div 16) @ [digit_char (n mod 16)])"

declare hex_digits.simps [simp del]

definition toString16 :: "int \<Rightarrow> string" where
  "toString16 n = (if n < 0 then CHR ''-'' # hex_digits (nat (- n)) else hex_digits (nat n))"

text \<open>The decimal text of a natural number, as a template literal prints it.\<close>

fun decimal_digits :: "nat \<Rightarrow> string" where
  "decimal_digits n = (if n < 10 then [digit_char n] else decimal_digits (n div 10) @ [digit_char (n mod 10)])"

declare decimal_digits.simps [simp del]

definition hex_digit_table :: "(char \<times> int) list" where
  "hex_digit_table =
     [(CHR ''0'', 0), (CHR ''1'', 1), (CHR ''2'', 2), (CHR ''3'', 3), (CHR ''4'', 4),
      (CHR ''5'', 5), (CHR ''6'', 6), (CHR ''7'', 7), (CHR ''8'', 8), (CHR ''9'', 9),
      (CHR ''a'', 10), (CHR ''b'', 11), (CHR ''c'', 12), (CHR ''d'', 13), (CHR ''e'', 14),
      (CHR ''f'', 15),
      (CHR ''A'', 10), (CHR ''B'', 11), (CHR ''C'', 12), (CHR ''D'', 13), (CHR ''E'', 14),
      (CHR ''F'', 15)]"

definition hex_digit_value :: "char \<Rightarrow> int option" where
  "hex_digit_value c = map_of hex_digit_table c"

definition is_hex_digit :: "char \<Rightarrow> bool" where
  "is_hex_digit c = (hex_digit_value c \<noteq> None)"

text \<open>The white space that \<^verbatim>\<open>parseInt\<close> skips: tab, line feed, vertical tab, form feed,
  carriage return, space and no-break space.\<close>

definition is_white_space :: "char \<Rightarrow> bool" where
  "is_white_space c = (c \<in> set [CHR 0x09, CHR 0x0A, CHR 0x0B, CHR 0x0C, CHR 0x0D, CHR 0x20, CHR 0xA0])"

definition strip_sign :: "string \<Rightarrow> bool \<times> string" where
  "strip_sign s =
     (case s of
        [] \<Rightarrow> (False, [])
      | c # cs \<Rightarrow> if c = CHR ''-'' then (True, cs)
                 else if c = CHR ''+'' then (False, cs) else (False, s))"

definition strip_0x :: "string \<Rightarrow> string" where
  "strip_0x s = (if take 2 s = ''0x'' \<or> take 2 s = ''0X'' then drop 2 s else s)"

definition hex_value :: "string \<Rightarrow> int" where
  "hex_value ds = foldl (\<lambda>acc c. 16 * acc + (case hex_digit_value c of Some v \<Rightarrow> v | None \<Rightarrow> 0)) 0 ds"

text \<open>
  \<^verbatim>\<open>parseInt(s, 16)\<close>: leading white space, a sign, an optional \<^verbatim>\<open>0x\<close>, then the
  longest run of hexadecimal digits; \<open>None\<close> is \<^verbatim>\<open>NaN\<close> (no digit at all).  The code
  applies it to pieces of at most two characters, so the value is exact.
\<close>

definition parseInt16 :: "string \<Rightarrow> int option" where
  "parseInt16 s =
     (case strip_sign (dropWhile is_white_space s) of
        (negative, rest) \<Rightarrow>
          (let ds = takeWhile is_hex_digit (strip_0x rest)
           in if ds = [] then None
              else Some (if negative then - hex_value ds else hex_value ds)))"

text \<open>A channel as it is printed into a colour: \<^verbatim>\<open>v.toString(16).padStart(2, '0')\<close>.\<close>

definition channel_text :: "int option \<Rightarrow> string" where
  "channel_text v = (case v of None \<Rightarrow> padStart2 ''NaN'' | Some n \<Rightarrow> padStart2 (toString16 n))"

section \<open>Colour derivation\<close>

text \<open>The three channels every colour function reads, after \<^verbatim>\<open>color.replace('#', '')\<close>.\<close>

definition channels :: "string \<Rightarrow> int option \<times> int option \<times> int option" where
  "channels color =
     (let hex = replace color ''#'' ''''
      in (parseInt16 (substring hex 0 2), parseInt16 (substring hex 2 4),
          parseInt16 (substring hex 4 6)))"

subsection \<open>ImageGenerator.darkenColor\<close>

definition darken_channel :: "int option \<Rightarrow> number \<Rightarrow> int option" where
  "darken_channel v factor =
     (case v of None \<Rightarrow> None | Some n \<Rightarrow> Some \<lfloor>jsmul (of_int n) (jssub 1 factor)\<rfloor>)"

definition darkenColor :: "string \<Rightarrow> number \<Rightarrow> string" where
  "darkenColor color factor =
     (case channels color of
        (r, g, b) \<Rightarrow>
          (let newR = darken_channel r factor;
               newG = darken_channel g factor;
               newB = darken_channel b factor
           in ''#'' @ channel_text newR @ channel_text newG @ channel_text newB))"

subsection \<open>ImageGenerator.getContrastColor\<close>

text \<open>\<^verbatim>\<open>(0.299 * r + 0.587 * g + 0.114 * b) / 255\<close>, in the order JavaScript evaluates it.\<close>

definition luminance :: "int \<Rightarrow> int \<Rightarrow> int \<Rightarrow> number" where
  "luminance r g b =
     jsdiv (jsadd (jsadd (jsmul (fl (299 / 1000)) (of_int r)) (jsmul (fl (587 / 1000)) (of_int g)))
                  (jsmul (fl (114 / 1000)) (of_int b)))
           255"

definition getContrastColor :: "string \<Rightarrow> string" where
  "getContrastColor backgroundColor =
     (case channels backgroundColor of
        (Some r, Some g, Some b) \<Rightarrow>
          if fl (1 / 2) < luminance r g b then ''#000000'' else ''#FFFFFF''
      | _ \<Rightarrow> ''#FFFFFF'')"

subsection \<open>FlyerGenerator.getAccentColor\<close>

definition accent_channel :: "int option \<Rightarrow> int option" where
  "accent_channel v =
     (case v of
        None \<Rightarrow> None
      | Some n \<Rightarrow> Some (min 255 (max 0 (jsrem (255 - n + 100) 256))))"

text \<open>\<^verbatim>\<open>r === g && g === b\<close>: never true of a channel that is \<^verbatim>\<open>NaN\<close>.\<close>

definition achromatic :: "int option \<Rightarrow> int option \<Rightarrow> int option \<Rightarrow> bool" where
  "achromatic r g b = (r \<noteq> None \<and> r = g \<and> g = b)"

definition getAccentColor :: "string \<Rightarrow> string" where
  "getAccentColor baseColor =
     (if baseColor = [] \<or> take 1 baseColor \<noteq> ''#'' \<or> length baseColor \<noteq> 7 then ''#FFD700''
      else (case channels baseColor of
              (r, g, b) \<Rightarrow>
                if achromatic r g b then ''#00BFFF''
                else ''#'' @ channel_text (accent_channel r) @ channel_text (accent_channel g)
                         @ channel_text (accent_channel b)))"

section \<open>Data model (types.ts)\<close>

text \<open>
  The interfaces of \<^verbatim>\<open>types.ts\<close> as records.  The field \<^verbatim>\<open>product\<close> is written
  \<open>product'\<close>, and the \<^verbatim>\<open>width\<close> and \<^verbatim>\<open>height\<close> of a size entry \<open>size_width\<close> and
  \<open>size_height\<close>.  A quantity is an integer.
\<close>

record dimensions =
  size_width :: number
  size_height :: number

record format_sizes =
  facebook :: dimensions
  instagram :: dimensions
  story :: dimensions

record PromoConfig =
  product' :: string
  businessType :: string
  offer :: string
  validity :: string
  location :: string
  phone :: string
  schedule :: string
  colors :: "string list"
  sizes :: format_sizes

record TextVariation =
  title :: string
  subtitle :: string
  callToAction :: string
  description :: string
  tone :: string

datatype format = Facebook | Instagram | Story

record GeneratedFlyer =
  filename :: string
  textVariation :: TextVariation
  color :: string
  format :: format

record CanvasConfig =
  width :: number
  height :: number
  backgroundColor :: string
  textColor :: string
  accentColor :: string

text \<open>What the program can throw.\<close>

datatype error =
    TypeError
  | RequestFailed
  | NoContent
  | InvalidJson
  | NoTextVariations
  | MkdirFailed string
  | RenderFailed

definition bind :: "error + 'a \<Rightarrow> ('a \<Rightarrow> error + 'b) \<Rightarrow> error + 'b" where
  "bind m f = (case m of Inl e \<Rightarrow> Inl e | Inr v \<Rightarrow> f v)"

section \<open>Object literals used as lookup tables\<close>

text \<open>
  \<^verbatim>\<open>table[key]\<close> on an object literal finds the literal's own entries and, for a key such
  as \<^verbatim>\<open>constructor\<close>, a member inherited from \<^verbatim>\<open>Object.prototype\<close>; any other key
  gives \<^verbatim>\<open>undefined\<close>.  What is inherited is a built-in object: the function
  \<^verbatim>\<open>Object\<close> under \<^verbatim>\<open>constructor\<close>, \<^verbatim>\<open>Object.prototype\<close> itself under
  \<^verbatim>\<open>__proto__\<close>, and a method of \<^verbatim>\<open>Object.prototype\<close> under each of the other keys.
  The built-in objects are those of ECMAScript 2024.
\<close>

datatype builtin = ObjectConstructor | ObjectPrototype | Method string

datatype 'a member = Own 'a | Inherited builtin | Absent

definition object_prototype_keys :: "string list" where
  "object_prototype_keys =
     [''constructor'', ''toString'', ''toLocaleString'', ''valueOf'', ''hasOwnProperty'',
      ''isPrototypeOf'', ''propertyIsEnumerable'', ''__proto__'', ''__defineGetter__'',
      ''__defineSetter__'', ''__lookupGetter__'', ''__lookupSetter__'']"

definition inherited :: "string \<Rightarrow> builtin" where
  "inherited key =
     (if key = ''constructor'' then ObjectConstructor
      else if key = ''__proto__'' then ObjectPrototype
      else Method key)"

definition get_property :: "(string \<times> 'a) list \<Rightarrow> string \<Rightarrow> 'a member" where
  "get_property table key =
     (case map_of table key of
        Some v \<Rightarrow> Own v
      | None \<Rightarrow> if key \<in> set object_prototype_keys then Inherited (inherited key) else Absent)"

text \<open>\<^verbatim>\<open>a ?? b\<close>; on tables \<^verbatim>\<open>a || b\<close> is the same, an object being truthy.\<close>

definition nullish_or :: "'a member \<Rightarrow> 'a member \<Rightarrow> 'a member" where
  "nullish_or a b = (case a of Absent \<Rightarrow> b | _ \<Rightarrow> a)"

text \<open>
  What a member that is read for its text can be: a string, a number, some other object
  or function, or nothing (\<^verbatim>\<open>undefined\<close> or \<^verbatim>\<open>null\<close>, which \<^verbatim>\<open>??\<close>, \<^verbatim>\<open>||\<close> and a
  method call treat alike).
\<close>

datatype property = Text string | Number nat | ObjectValue | Nullish

text \<open>\<^verbatim>\<open>a ?? b\<close> and \<^verbatim>\<open>a || b\<close>: the empty string and zero are falsy.\<close>

definition coalesce :: "property \<Rightarrow> property \<Rightarrow> property" where
  "coalesce a b = (case a of Nullish \<Rightarrow> b | _ \<Rightarrow> a)"

definition truthy_or :: "property \<Rightarrow> property \<Rightarrow> property" where
  "truthy_or a b =
     (case a of
        Nullish \<Rightarrow> b
      | Text s \<Rightarrow> if s = [] then b else a
      | Number n \<Rightarrow> if n = 0 then b else a
      | ObjectValue \<Rightarrow> a)"

text \<open>
  The members of a built-in function: its own \<^verbatim>\<open>name\<close> and \<^verbatim>\<open>length\<close>, the static
  methods if it is \<^verbatim>\<open>Object\<close>, and what it inherits from \<^verbatim>\<open>Function.prototype\<close> and
  \<^verbatim>\<open>Object.prototype\<close>.  Reading \<^verbatim>\<open>caller\<close> or \<^verbatim>\<open>arguments\<close> of a built-in function
  throws.
\<close>

definition function_prototype_keys :: "string list" where
  "function_prototype_keys = [''apply'', ''bind'', ''call'', ''constructor'', ''toString'']"

definition object_static_keys :: "string list" where
  "object_static_keys =
     [''prototype'', ''assign'', ''create'', ''defineProperties'', ''defineProperty'', ''entries'',
      ''freeze'', ''fromEntries'', ''getOwnPropertyDescriptor'', ''getOwnPropertyDescriptors'',
      ''getOwnPropertyNames'', ''getOwnPropertySymbols'', ''getPrototypeOf'', ''groupBy'',
      ''hasOwn'', ''is'', ''isExtensible'', ''isFrozen'', ''isSealed'', ''keys'',
      ''preventExtensions'', ''seal'', ''setPrototypeOf'', ''values'']"

definition method_length :: "string \<Rightarrow> nat" where
  "method_length name =
     (case map_of [(''toString'', 0), (''toLocaleString'', 0), (''valueOf'', 0),
                   (''hasOwnProperty'', 1), (''isPrototypeOf'', 1),
                   (''propertyIsEnumerable'', 1), (''__defineGetter__'', 2),
                   (''__defineSetter__'', 2), (''__lookupGetter__'', 1),
                   (''__lookupSetter__'', 1)] name of
        Some n \<Rightarrow> n
      | None \<Rightarrow> 0)"

definition function_member :: "string \<Rightarrow> nat \<Rightarrow> string list \<Rightarrow> string \<Rightarrow> error + property" where
  "function_member name len statics key =
     (if key = ''name'' then Inr (Text name)
      else if key = ''length'' then Inr (Number len)
      else if key \<in> set statics then Inr ObjectValue
      else if key = ''caller'' \<or> key = ''arguments'' then Inl TypeError
      else if key \<in> set function_prototype_keys \<or> key \<in> set object_prototype_keys
      then Inr ObjectValue
      else Inr Nullish)"

text \<open>
  \<^verbatim>\<open>Object.prototype\<close> has the twelve members above; its \<^verbatim>\<open>__proto__\<close> is
  \<^verbatim>\<open>null\<close>.
\<close>

definition builtin_member :: "builtin \<Rightarrow> string \<Rightarrow> error + property" where
  "builtin_member b key =
     (case b of
        ObjectConstructor \<Rightarrow> function_member ''Object'' 1 object_static_keys key
      | Method name \<Rightarrow> function_member name (method_length name) [] key
      | ObjectPrototype \<Rightarrow>
          if key \<noteq> ''__proto__'' \<and> key \<in> set object_prototype_keys then Inr ObjectValue
          else Inr Nullish)"

text \<open>
  \<^verbatim>\<open>table?.[tone]\<close>, where \<^verbatim>\<open>table\<close> is what the lookup of the language has found: a
  table of the literal or a built-in object.
\<close>

definition optional_member :: "(string \<times> string) list member \<Rightarrow> string \<Rightarrow> error + property" where
  "optional_member table key =
     (case table of
        Own entries \<Rightarrow>
          (case get_property entries key of
             Own s \<Rightarrow> Inr (Text s)
           | Inherited b \<Rightarrow> Inr ObjectValue
           | Absent \<Rightarrow> Inr Nullish)
      | Inherited b \<Rightarrow> builtin_member b key
      | Absent \<Rightarrow> Inr Nullish)"

text \<open>\<^verbatim>\<open>(value).substring(0, n)\<close>: a type error on anything but a string.\<close>

definition substring_of :: "property \<Rightarrow> nat \<Rightarrow> error + string" where
  "substring_of v n = (case v of Text s \<Rightarrow> Inr (substring s 0 n) | _ \<Rightarrow> Inl TypeError)"

section \<open>TextGenerator\<close>

subsection \<open>The fallback templates\<close>

definition titles_English :: "PromoConfig \<Rightarrow> (string \<times> string) list" where
  "titles_English config =
     [(''urgent'', ''Last Chance: '' @ offer config @ ''!''),
      (''elegant'', ''Exclusive '' @ product' config @ '' for you''),
      (''casual'', ''Don'' @ [CHR 0x27] @ ''t miss this '' @ product' config @ '' deal!''),
      (''fun'', ''Party Time for '' @ product' config @ ''!''),
      (''exclusive'', ''VIP Access to '' @ product' config),
      (''friendly'', ''Enjoy with family: '' @ product' config),
      (''informative'', ''Learn about '' @ product' config @ '': The Guide''),
      (''inspiring'', ''Transform your day with '' @ product' config)]"

definition titles_Spanish :: "PromoConfig \<Rightarrow> (string \<times> string) list" where
  "titles_Spanish config =
     [(''urgent'', [CHR 0xA1] @ [CHR 0xDA] @ ''ltima Oportunidad: '' @ offer config @ ''!''),
      (''elegant'', product' config @ '' Exclusivo para ti''),
      (''casual'', [CHR 0xA1] @ ''No te pierdas esta oferta de '' @ product' config @ ''!''),
      (''fun'', [CHR 0xA1] @ ''Hora de '' @ product' config @ ''!''),
      (''exclusive'', ''Acceso VIP a '' @ product' config),
      (''friendly'', ''Disfruta en familia: '' @ product' config),
      (''informative'', ''Conoce '' @ product' config @ '': La Gu'' @ [CHR 0xED] @ ''a''),
      (''inspiring'', ''Transforma tu d'' @ [CHR 0xED] @ ''a con '' @ product' config)]"

definition subtitles_English :: "PromoConfig \<Rightarrow> (string \<times> string) list" where
  "subtitles_English config =
     [(''urgent'', validity config @ ''. Act fast!''),
      (''elegant'', ''Superior quality and unmatched design await you.''),
      (''casual'', ''Relax and enjoy '' @ product' config @ ''.''),
      (''fun'', ''Fun is guaranteed with '' @ product' config @ ''.''),
      (''exclusive'', ''Unique benefits designed for select customers.''),
      (''friendly'', ''Create unforgettable memories with your loved ones.''),
      (''informative'', ''Everything you need to know before your purchase.''),
      (''inspiring'', ''Achieve your goals with the support of '' @ product' config @ ''.'')]"

definition subtitles_Spanish :: "PromoConfig \<Rightarrow> (string \<times> string) list" where
  "subtitles_Spanish config =
     [(''urgent'', validity config @ ''. '' @ [CHR 0xA1] @ ''Act'' @ [CHR 0xFA] @ ''a r'' @ [CHR 0xE1] @ ''pido!''),
      (''elegant'', ''Calidad superior y dise'' @ [CHR 0xF1] @ ''o inigualable te esperan.''),
      (''casual'', ''Rel'' @ [CHR 0xE1] @ ''jate y disfruta de '' @ product' config @ ''.''),
      (''fun'', ''La diversi'' @ [CHR 0xF3] @ ''n est'' @ [CHR 0xE1] @ '' garantizada con '' @ product' config @ ''.''),
      (''exclusive'', ''Beneficios '' @ [CHR 0xFA] @ ''nicos dise'' @ [CHR 0xF1] @ ''ados para clientes selectos.''),
      (''friendly'', ''Crea recuerdos inolvidables con los tuyos.''),
      (''informative'', ''Todo lo que necesitas saber antes de tu compra.''),
      (''inspiring'', ''Alcanza tus metas con el apoyo de '' @ product' config @ ''.'')]"

definition ctas_English :: "(string \<times> string) list" where
  "ctas_English =
     [(''urgent'', ''Book Now!''),
      (''elegant'', ''Request Info''),
      (''casual'', ''Try It Now!''),
      (''fun'', ''Join the Party!''),
      (''exclusive'', ''Access Here!''),
      (''friendly'', ''Come With Us!''),
      (''informative'', ''Read More''),
      (''inspiring'', ''Start Today!'')]"

definition ctas_Spanish :: "(string \<times> string) list" where
  "ctas_Spanish =
     [(''urgent'', [CHR 0xA1] @ ''Reserva Ya!''),
      (''elegant'', ''Solicita Info''),
      (''casual'', [CHR 0xA1] @ ''Pru'' @ [CHR 0xE9] @ ''balo!''),
      (''fun'', [CHR 0xA1] @ [CHR 0xDA] @ ''nete!''),
      (''exclusive'', [CHR 0xA1] @ ''Accede Aqu'' @ [CHR 0xED] @ ''!''),
      (''friendly'', [CHR 0xA1] @ ''Ven con Nosotros!''),
      (''informative'', ''Leer M'' @ [CHR 0xE1] @ ''s''),
      (''inspiring'', [CHR 0xA1] @ ''Empieza Hoy!'')]"

definition descriptions_English :: "PromoConfig \<Rightarrow> (string \<times> string) list" where
  "descriptions_English config =
     [(''urgent'', ''Don'' @ [CHR 0x27] @ ''t miss this special offer on '' @ product' config @ ''. Valid only until '' @ validity config @ ''. Visit us at '' @ (if location config = [] then ''our store'' else location config) @ ''!''),
      (''elegant'', ''Immerse yourself in the premium experience of '' @ product' config @ ''. Design and functionality come together for you.''),
      (''casual'', ''Looking for something different? Our '' @ product' config @ '' is perfect for your daily life.''),
      (''fun'', ''Get ready for fun with '' @ product' config @ ''. Ideal for any occasion!''),
      (''exclusive'', ''A unique opportunity to access the best of '' @ product' config @ ''. By invitation only!''),
      (''friendly'', ''Unforgettable moments await you with '' @ product' config @ ''. Ideal for sharing with family.''),
      (''informative'', ''Discover the key features and benefits of '' @ product' config @ ''.''),
      (''inspiring'', ''Take the next step towards your dreams with '' @ product' config @ ''.'')]"

definition descriptions_Spanish :: "PromoConfig \<Rightarrow> (string \<times> string) list" where
  "descriptions_Spanish config =
     [(''urgent'', ''No dejes pasar esta oferta especial en '' @ product' config @ ''. V'' @ [CHR 0xE1] @ ''lida solo hasta '' @ validity config @ ''. '' @ [CHR 0xA1] @ ''Vis'' @ [CHR 0xED] @ ''tanos en '' @ (if location config = [] then ''nuestra tienda'' else location config) @ ''!''),
      (''elegant'', ''Sum'' @ [CHR 0xE9] @ ''rgete en la experiencia premium de '' @ product' config @ ''. Dise'' @ [CHR 0xF1] @ ''o y funcionalidad se unen para ti.''),
      (''casual'', [CHR 0xBF] @ ''Buscas algo diferente? Nuestro '' @ product' config @ '' es perfecto para tu d'' @ [CHR 0xED] @ ''a a d'' @ [CHR 0xED] @ ''a.''),
      (''fun'', ''Prep'' @ [CHR 0xE1] @ ''rate para la diversi'' @ [CHR 0xF3] @ ''n con '' @ product' config @ ''. '' @ [CHR 0xA1] @ ''Ideal para cualquier ocasi'' @ [CHR 0xF3] @ ''n!''),
      (''exclusive'', ''Una oportunidad '' @ [CHR 0xFA] @ ''nica para acceder a lo mejor de '' @ product' config @ ''. '' @ [CHR 0xA1] @ ''Solo por invitaci'' @ [CHR 0xF3] @ ''n!''),
      (''friendly'', ''Momentos inolvidables te esperan con '' @ product' config @ ''. Ideal para compartir en familia.''),
      (''informative'', ''Descubre las caracter'' @ [CHR 0xED] @ ''sticas clave y beneficios de '' @ product' config @ ''.''),
      (''inspiring'', ''Da el siguiente paso hacia tus sue'' @ [CHR 0xF1] @ ''os con '' @ product' config @ ''.'')]"

definition fallbackTexts_English :: "(string \<times> string) list" where
  "fallbackTexts_English =
     [(''title'', ''Special Offer for {product}!''),
      (''subtitle'', ''Discover more about our {product} today.''),
      (''callToAction'', ''Learn More!''),
      (''description'', ''Take advantage of the opportunity to discover {product} with our special offer.'')]"

definition fallbackTexts_Spanish :: "(string \<times> string) list" where
  "fallbackTexts_Spanish =
     [(''title'', [CHR 0xA1] @ ''Oferta Especial de {product}!''),
      (''subtitle'', ''Descubre m'' @ [CHR 0xE1] @ ''s sobre nuestro {product} hoy.''),
      (''callToAction'', [CHR 0xA1] @ ''Inf'' @ [CHR 0xF3] @ ''rmate!''),
      (''description'', ''Aprovecha la oportunidad de conocer {product} con nuestra oferta especial.'')]"

definition titles :: "PromoConfig \<Rightarrow> (string \<times> (string \<times> string) list) list" where
  "titles config = [(''English'', titles_English config), (''Spanish'', titles_Spanish config)]"

definition subtitles :: "PromoConfig \<Rightarrow> (string \<times> (string \<times> string) list) list" where
  "subtitles config = [(''English'', subtitles_English config), (''Spanish'', subtitles_Spanish config)]"

definition ctas :: "(string \<times> (string \<times> string) list) list" where
  "ctas = [(''English'', ctas_English), (''Spanish'', ctas_Spanish)]"

definition descriptions :: "PromoConfig \<Rightarrow> (string \<times> (string \<times> string) list) list" where
  "descriptions config =
     [(''English'', descriptions_English config), (''Spanish'', descriptions_Spanish config)]"

definition fallbackTexts :: "(string \<times> (string \<times> string) list) list" where
  "fallbackTexts = [(''English'', fallbackTexts_English), (''Spanish'', fallbackTexts_Spanish)]"

subsection \<open>The four field generators\<close>

definition generateFallbackTitle :: "PromoConfig \<Rightarrow> string \<Rightarrow> string \<Rightarrow> error + string" where
  "generateFallbackTitle config tone' language =
     (let langTitles = nullish_or (get_property (titles config) language)
                                  (get_property (titles config) ''English'')
      in bind (optional_member langTitles tone') (\<lambda>found.
           substring_of (coalesce found (Text (''Discover '' @ product' config @ '' Now!''))) 50))"

definition generateFallbackSubtitle :: "PromoConfig \<Rightarrow> string \<Rightarrow> string \<Rightarrow> error + string" where
  "generateFallbackSubtitle config tone' language =
     (let langSubtitles = nullish_or (get_property (subtitles config) language)
                                     (get_property (subtitles config) ''English'')
      in bind (optional_member langSubtitles tone') (\<lambda>found.
           substring_of
             (truthy_or found (Text (''Take advantage of our offer on '' @ product' config @ ''.'')))
             80))"

definition generateFallbackCTA :: "string \<Rightarrow> string \<Rightarrow> error + string" where
  "generateFallbackCTA tone' language =
     (let langCtas = nullish_or (get_property ctas language) (get_property ctas ''English'')
      in bind (optional_member langCtas tone') (\<lambda>found.
           substring_of (truthy_or found (Text ''More Info!'')) 30))"

definition generateFallbackDescription ::
    "PromoConfig \<Rightarrow> string \<Rightarrow> nat \<Rightarrow> string \<Rightarrow> error + string" where
  "generateFallbackDescription config tone' index language =
     (let langDescriptions = nullish_or (get_property (descriptions config) language)
                                        (get_property (descriptions config) ''English'')
      in bind (optional_member langDescriptions tone') (\<lambda>found.
           (let baseDescription =
                  truthy_or found
                    (Text (''Take advantage of our incredible '' @ offer config @ '' on ''
                           @ product' config @ ''. '' @ validity config @ ''. Visit us at ''
                           @ location config @ ''.''))
            in substring_of baseDescription 200)))"

subsection \<open>generateFallbackVariations\<close>

definition baseTones :: "string list" where
  "baseTones = [''urgent'', ''elegant'', ''casual'', ''fun'', ''exclusive'', ''friendly'',
                ''informative'', ''inspiring'']"

text \<open>
  One pass of the loop body: the object pushed for slot \<open>i\<close>.  The index is inside the
  list, so \<^verbatim>\<open>tone || ''\<close> is the tone itself.
\<close>

definition fallback_slot :: "PromoConfig \<Rightarrow> string \<Rightarrow> nat \<Rightarrow> error + TextVariation" where
  "fallback_slot config language i =
     (let tone' = baseTones ! (i mod length baseTones)
      in bind (generateFallbackTitle config tone' language) (\<lambda>t.
         bind (generateFallbackSubtitle config tone' language) (\<lambda>s.
         bind (generateFallbackCTA tone' language) (\<lambda>c.
         bind (generateFallbackDescription config tone' i language) (\<lambda>d.
         Inr \<lparr>title = t, subtitle = s, callToAction = c, description = d, tone = tone'\<rparr>)))))"

function fallback_loop ::
    "PromoConfig \<Rightarrow> int \<Rightarrow> string \<Rightarrow> nat \<Rightarrow> TextVariation list \<Rightarrow> error + TextVariation list" where
  "fallback_loop config quantity language i fallbackVariations =
     (if int i < quantity
      then (case fallback_slot config language i of
              Inl e \<Rightarrow> Inl e
            | Inr v \<Rightarrow> fallback_loop config quantity language (Suc i) (fallbackVariations @ [v]))
      else Inr fallbackVariations)"
  by pat_completeness auto
termination
  by (relation "measure (\<lambda>(config, quantity, language, i, acc). nat (quantity - int i))") auto

declare fallback_loop.simps [simp del]

text \<open>
  \<^verbatim>\<open>getFallbackTexts(language)\<close> and a field of what it returns.  \<^verbatim>\<open>replace\<close> is
  called on the title, the subtitle and the description, and throws on anything but a
  string.  The call to action is read without a call, after the title: where it is not a
  text the title is not one either (no built-in object has a member \<^verbatim>\<open>title\<close>), and
  reading the title has thrown.
\<close>

definition getFallbackTexts :: "string \<Rightarrow> (string \<times> string) list member" where
  "getFallbackTexts language =
     nullish_or (get_property fallbackTexts language) (get_property fallbackTexts ''English'')"

definition text_field :: "(string \<times> string) list member \<Rightarrow> string \<Rightarrow> error + string" where
  "text_field texts key =
     bind (optional_member texts key) (\<lambda>found.
       case found of Text s \<Rightarrow> Inr s | _ \<Rightarrow> Inl TypeError)"

definition last_resort :: "PromoConfig \<Rightarrow> string \<Rightarrow> error + TextVariation list" where
  "last_resort config language =
     (let texts = getFallbackTexts language
      in bind (text_field texts ''title'') (\<lambda>t.
         bind (text_field texts ''subtitle'') (\<lambda>s.
         bind (text_field texts ''callToAction'') (\<lambda>c.
         bind (text_field texts ''description'') (\<lambda>d.
         Inr [\<lparr>title = replace t ''{product}'' (product' config),
               subtitle = replace s ''{product}'' (product' config),
               callToAction = c,
               description = replace d ''{product}'' (product' config),
               tone = ''general''\<rparr>])))))"

definition generateFallbackVariations ::
    "PromoConfig \<Rightarrow> int \<Rightarrow> string \<Rightarrow> error + TextVariation list" where
  "generateFallbackVariations config quantity language =
     bind (fallback_loop config quantity language 0 []) (\<lambda>fallbackVariations.
       if length fallbackVariations = 0 \<and> 0 < quantity then last_resort config language
       else Inr fallbackVariations)"

subsection \<open>The reply of the generative source\<close>

text \<open>
  The request to the generative source is an external call.  Its outcome is a parameter
  of the model: the call is rejected, the reply has no content, or the content is a text
  that \<^verbatim>\<open>JSON.parse\<close> rejects or turns into a value.  Of a parsed value the model keeps
  what \<^verbatim>\<open>parseResponse\<close> looks at: whether it is an array, and for each element
  whether it is a primitive, \<^verbatim>\<open>null\<close> or an object with its members (an array among
  the elements is an object with none of the five members).  Members are read as texts,
  as the declared element type \<^verbatim>\<open>TextVariation\<close> says.  The prompt texts
  (\<^verbatim>\<open>buildPrompt\<close>, \<^verbatim>\<open>getSystemPrompt\<close>) only feed the external call.
\<close>

datatype element = Primitive | Null | Object "(string \<times> string) list"

datatype parsed = Array "element list" | NotArray

datatype content = Malformed | Json parsed

datatype completion = Rejected | Empty | Content content

text \<open>\<^verbatim>\<open>typeof v === 'object'\<close> holds of \<^verbatim>\<open>null\<close> too.\<close>

definition typeof_object :: "element \<Rightarrow> bool" where
  "typeof_object v = (case v of Primitive \<Rightarrow> False | Null \<Rightarrow> True | Object members \<Rightarrow> True)"

text \<open>\<^verbatim>\<open>key in v\<close>, for a \<open>v\<close> that is an object: own and inherited keys.\<close>

definition has_key :: "string \<Rightarrow> element \<Rightarrow> bool" where
  "has_key key v =
     (case v of
        Object members \<Rightarrow> key \<in> set (map fst members) \<or> key \<in> set object_prototype_keys
      | _ \<Rightarrow> False)"

definition essential_fields :: "element \<Rightarrow> bool" where
  "essential_fields v =
     (typeof_object v \<and> v \<noteq> Null \<and> has_key ''title'' v \<and> has_key ''subtitle'' v
      \<and> has_key ''callToAction'' v \<and> has_key ''description'' v \<and> has_key ''tone'' v)"

definition member_text :: "(string \<times> string) list \<Rightarrow> string \<Rightarrow> string" where
  "member_text members key = (case map_of members key of Some s \<Rightarrow> s | None \<Rightarrow> [])"

text \<open>An element that passed the filter, read through the type \<^verbatim>\<open>TextVariation\<close>.\<close>

definition as_TextVariation :: "element \<Rightarrow> TextVariation" where
  "as_TextVariation v =
     (let members = (case v of Object ms \<Rightarrow> ms | _ \<Rightarrow> [])
      in \<lparr>title = member_text members ''title'', subtitle = member_text members ''subtitle'',
          callToAction = member_text members ''callToAction'',
          description = member_text members ''description'',
          tone = member_text members ''tone''\<rparr>)"

text \<open>
  \<^verbatim>\<open>parseResponse\<close>: a syntax error of \<^verbatim>\<open>JSON.parse\<close> and the type error of
  \<^verbatim>\<open>variations.filter\<close> on a value that is not an array are both caught and thrown
  again as the same error.
\<close>

definition parseResponse :: "content \<Rightarrow> error + TextVariation list" where
  "parseResponse response =
     (case response of
        Malformed \<Rightarrow> Inl InvalidJson
      | Json NotArray \<Rightarrow> Inl InvalidJson
      | Json (Array variations) \<Rightarrow> Inr (map as_TextVariation (filter essential_fields variations)))"

subsection \<open>generateVariations\<close>

definition request_variations :: "completion \<Rightarrow> error + TextVariation list" where
  "request_variations reply =
     (case reply of
        Rejected \<Rightarrow> Inl RequestFailed
      | Empty \<Rightarrow> Inl NoContent
      | Content responseContent \<Rightarrow> parseResponse responseContent)"

definition TextGenerator_generateVariations ::
    "completion \<Rightarrow> PromoConfig \<Rightarrow> int \<Rightarrow> string \<Rightarrow> error + TextVariation list" where
  "TextGenerator_generateVariations reply config quantity language =
     (case request_variations reply of
        Inr variations \<Rightarrow> Inr variations
      | Inl e \<Rightarrow> generateFallbackVariations config quantity language)"

section \<open>ImageGenerator\<close>

text \<open>
  \<^verbatim>\<open>createSVG\<close> builds the text of an SVG document.  The model keeps its structure: the
  positioned shapes and text runs with the numbers and texts the template prints, in
  place of the printed text itself.  What is constant in the template (fonts, opacities,
  corner radii, the shadow filter) is left out.
\<close>

record text_run =
  run_x :: number
  run_y :: number
  run_size :: number
  run_fill :: string
  run_content :: string

record svg =
  svg_width :: number
  svg_height :: number
  gradient_start :: string
  gradient_stop :: string
  circle_cx :: number
  circle_cy :: number
  circle_radius :: number
  ornament_x :: number
  ornament_y :: number
  ornament_width :: number
  ornament_height :: number
  ornament_fill :: string
  title_text :: text_run
  subtitle_text :: text_run
  description_lines :: "text_run list"
  button_x :: number
  button_y :: number
  button_width :: number
  button_height :: number
  button_fill :: string
  button_text :: text_run
  rule_x1 :: number
  rule_y1 :: number
  rule_x2 :: number
  rule_y2 :: number
  rule_stroke :: string

subsection \<open>escapeXML\<close>

definition replace_all :: "char \<Rightarrow> string \<Rightarrow> string \<Rightarrow> string" where
  "replace_all c entity s = concat (map (\<lambda>x. if x = c then entity else [x]) s)"

definition escapeXML :: "string \<Rightarrow> string" where
  "escapeXML s =
     replace_all (CHR 0x27) ''&#39;''
       (replace_all (CHR 0x22) ''&quot;''
         (replace_all (CHR ''>'') ''&gt;''
           (replace_all (CHR ''<'') ''&lt;''
             (replace_all (CHR ''&'') ''&amp;'' s))))"

subsection \<open>createMultilineText\<close>

text \<open>
  \<^verbatim>\<open>Math.floor(maxWidth / (fontSize * 0.6))\<close>.  A divisor of zero makes the quotient
  infinite, or \<^verbatim>\<open>NaN\<close> when \<^verbatim>\<open>maxWidth\<close> is zero as well.
\<close>

datatype threshold = Finite int | PlusInfinity | MinusInfinity | NotANumber

definition charsPerLine :: "number \<Rightarrow> number \<Rightarrow> threshold" where
  "charsPerLine maxWidth fontSize =
     (let divisor = jsmul fontSize (fl (6 / 10))
      in if divisor = 0
         then (if 0 < maxWidth then PlusInfinity
               else if maxWidth < 0 then MinusInfinity else NotANumber)
         else Finite \<lfloor>jsdiv maxWidth divisor\<rfloor>)"

text \<open>\<^verbatim>\<open>n <= charsPerLine\<close> for a length \<open>n\<close>.\<close>

definition fits_in :: "nat \<Rightarrow> threshold \<Rightarrow> bool" where
  "fits_in n limit =
     (case limit of
        Finite k \<Rightarrow> int n \<le> k
      | PlusInfinity \<Rightarrow> True
      | MinusInfinity \<Rightarrow> False
      | NotANumber \<Rightarrow> False)"

text \<open>
  The loop over the words, with the final \<^verbatim>\<open>if (currentLine) lines.push(currentLine)\<close>
  as its base case.
\<close>

fun wrap_words :: "threshold \<Rightarrow> string list \<Rightarrow> string \<Rightarrow> string list \<Rightarrow> string list" where
  "wrap_words limit [] currentLine lines =
     (if currentLine \<noteq> [] then lines @ [currentLine] else lines)"
| "wrap_words limit (word # words) currentLine lines =
     (if fits_in (length (currentLine @ word)) limit
      then wrap_words limit words
             (currentLine @ (if currentLine \<noteq> [] then '' '' else []) @ word) lines
      else wrap_words limit words word
             (if currentLine \<noteq> [] then lines @ [currentLine] else lines))"

definition wrapped_lines :: "string \<Rightarrow> number \<Rightarrow> number \<Rightarrow> string list" where
  "wrapped_lines text' fontSize maxWidth =
     wrap_words (charsPerLine maxWidth fontSize) (split text') [] []"

definition createMultilineText ::
    "string \<Rightarrow> number \<Rightarrow> number \<Rightarrow> number \<Rightarrow> string \<Rightarrow> number \<Rightarrow> text_run list" where
  "createMultilineText text' x y fontSize color' maxWidth =
     map (\<lambda>(index, line).
            \<lparr>run_x = x,
             run_y = jsadd y (jsmul (jsmul (of_nat index) fontSize) (fl (12 / 10))),
             run_size = fontSize, run_fill = color', run_content = escapeXML line\<rparr>)
         (enumerate 0 (wrapped_lines text' fontSize maxWidth))"

subsection \<open>createSVG\<close>

definition createSVG :: "TextVariation \<Rightarrow> CanvasConfig \<Rightarrow> svg" where
  "createSVG text' config =
     (let titleSize = max 24 (jsmul (width config) (fl (5 / 100)));
          subtitleSize = max 18 (jsmul (width config) (fl (35 / 1000)));
          descriptionSize = max 14 (jsmul (width config) (fl (25 / 1000)));
          ctaSize = max 16 (jsmul (width config) (fl (3 / 100)));
          centerX = jsdiv (width config) 2;
          titleY = jsmul (height config) (fl (25 / 100));
          subtitleY = jsadd (jsadd titleY titleSize) 20;
          descriptionY = jsmul (height config) (fl (55 / 100));
          ctaY = jsmul (height config) (fl (8 / 10));
          ctaLength = of_nat (length (callToAction text'))
      in \<lparr>svg_width = width config,
          svg_height = height config,
          gradient_start = backgroundColor config,
          gradient_stop = darkenColor (backgroundColor config) (fl (2 / 10)),
          circle_cx = jsmul (width config) (fl (85 / 100)),
          circle_cy = jsmul (height config) (fl (15 / 100)),
          circle_radius = jsmul (width config) (fl (8 / 100)),
          ornament_x = jsmul (width config) (fl (5 / 100)),
          ornament_y = jsmul (height config) (fl (85 / 100)),
          ornament_width = jsmul (width config) (fl (15 / 100)),
          ornament_height = jsmul (height config) (fl (1 / 10)),
          ornament_fill = accentColor config,
          title_text = \<lparr>run_x = centerX, run_y = titleY, run_size = titleSize,
                         run_fill = textColor config, run_content = escapeXML (title text')\<rparr>,
          subtitle_text = \<lparr>run_x = centerX, run_y = subtitleY, run_size = subtitleSize,
                            run_fill = textColor config,
                            run_content = escapeXML (subtitle text')\<rparr>,
          description_lines =
            createMultilineText (description text') centerX descriptionY descriptionSize
              (textColor config) (jsmul (width config) (fl (8 / 10))),
          button_x = jssub centerX (jsmul (jsmul ctaLength ctaSize) (fl (3 / 10))),
          button_y = jssub ctaY ctaSize,
          button_width = jsmul (jsmul ctaLength ctaSize) (fl (6 / 10)),
          button_height = jsmul ctaSize (fl (18 / 10)),
          button_fill = accentColor config,
          button_text = \<lparr>run_x = centerX, run_y = ctaY, run_size = ctaSize,
                          run_fill = ''white'', run_content = escapeXML (callToAction text')\<rparr>,
          rule_x1 = jsmul (width config) (fl (2 / 10)),
          rule_y1 = jsmul (height config) (fl (65 / 100)),
          rule_x2 = jsmul (width config) (fl (8 / 10)),
          rule_y2 = jsmul (height config) (fl (65 / 100)),
          rule_stroke = accentColor config\<rparr>)"

subsection \<open>generateFlyer\<close>

text \<open>
  The rasterisation of the document is an external call; whether it succeeds is a
  parameter.  A failure is logged and thrown again.
\<close>

definition generateFlyer :: "bool \<Rightarrow> TextVariation \<Rightarrow> CanvasConfig \<Rightarrow> error + svg" where
  "generateFlyer rasterized textVariation' canvasConfig =
     (let document = createSVG textVariation' canvasConfig
      in if rasterized then Inr document else Inl RenderFailed)"

section \<open>FlyerGenerator\<close>

text \<open>
  The world outside a batch: what \<^verbatim>\<open>mkdir\<close> does, what the generative source
  replies, and for each cell (index and format) whether its rasterisation succeeds.
\<close>

datatype mkdir_outcome = Made | Raises string

record environment =
  mkdir_outcome :: mkdir_outcome
  reply :: completion
  rasterizes :: "nat \<Rightarrow> format \<Rightarrow> bool"

text \<open>
  What a batch leaves behind: the flyers it returns, and the rasterisation requests it
  issued, in order.  The output path of a request is the file name joined to the output
  directory.
\<close>

record render_request =
  request_text :: TextVariation
  request_canvas :: CanvasConfig
  request_filename :: string

record batch =
  flyers :: "GeneratedFlyer list"
  requests :: "render_request list"

definition ensureOutputDirectory :: "mkdir_outcome \<Rightarrow> error + unit" where
  "ensureOutputDirectory outcome =
     (case outcome of
        Made \<Rightarrow> Inr ()
      | Raises code \<Rightarrow> if code \<noteq> ''EEXIST'' then Inl (MkdirFailed code) else Inr ())"

definition format_name :: "format \<Rightarrow> string" where
  "format_name format' =
     (case format' of Facebook \<Rightarrow> ''facebook'' | Instagram \<Rightarrow> ''instagram'' | Story \<Rightarrow> ''story'')"

definition format_dimensions :: "PromoConfig \<Rightarrow> format \<Rightarrow> dimensions" where
  "format_dimensions config format' =
     (case format' of
        Facebook \<Rightarrow> facebook (sizes config)
      | Instagram \<Rightarrow> instagram (sizes config)
      | Story \<Rightarrow> story (sizes config))"

text \<open>\<^verbatim>\<open>textVariations[i % textVariations.length]\<close>: \<^verbatim>\<open>undefined\<close> on an empty list.\<close>

definition cell_variation :: "TextVariation list \<Rightarrow> nat \<Rightarrow> TextVariation option" where
  "cell_variation textVariations i =
     (if textVariations = [] then None
      else Some (textVariations ! (i mod length textVariations)))"

text \<open>\<^verbatim>\<open>config.colors[i % config.colors.length] || '#3498DB'\<close>.\<close>

definition cell_color :: "PromoConfig \<Rightarrow> nat \<Rightarrow> string" where
  "cell_color config i =
     (if colors config = [] then ''#3498DB''
      else (let chosen = colors config ! (i mod length (colors config))
            in if chosen = [] then ''#3498DB'' else chosen))"

definition cell_canvas :: "PromoConfig \<Rightarrow> string \<Rightarrow> format \<Rightarrow> CanvasConfig" where
  "cell_canvas config color' format' =
     (let dims = format_dimensions config format'
      in \<lparr>width = size_width dims, height = size_height dims, backgroundColor = color',
          textColor = getContrastColor color', accentColor = getAccentColor color'\<rparr>)"

definition cell_filename :: "nat \<Rightarrow> TextVariation option \<Rightarrow> format \<Rightarrow> string" where
  "cell_filename i textVariation' format' =
     ''flyer_'' @ decimal_digits (i + 1) @ ''_''
       @ (case textVariation' of
            None \<Rightarrow> ''generic''
          | Some v \<Rightarrow> if tone v = [] then ''generic'' else tone v)
       @ ''_'' @ format_name format' @ ''.png''"

text \<open>
  The body of the loops, from the canvas configuration to the \<^verbatim>\<open>try\<close> block: a
  failed rasterisation is caught and leaves the list of flyers as it was.
\<close>

definition render_cell ::
    "(nat \<Rightarrow> format \<Rightarrow> bool) \<Rightarrow> PromoConfig \<Rightarrow> TextVariation option \<Rightarrow> string \<Rightarrow> nat \<Rightarrow> format
       \<Rightarrow> batch \<Rightarrow> batch" where
  "render_cell raster config textVariation' color' i format' state =
     (let canvasConfig = cell_canvas config color' format';
          name = cell_filename i textVariation' format'
      in (case textVariation' of
            None \<Rightarrow> state
          | Some v \<Rightarrow>
              (let issued = requests state
                     @ [\<lparr>request_text = v, request_canvas = canvasConfig, request_filename = name\<rparr>]
               in (case generateFlyer (raster i format') v canvasConfig of
                     Inl imageError \<Rightarrow> state\<lparr>requests := issued\<rparr>
                   | Inr document \<Rightarrow>
                       \<lparr>flyers = flyers state
                          @ [\<lparr>filename = name, textVariation = v, color = color', format = format'\<rparr>],
                        requests = issued\<rparr>))))"

subsection \<open>generateVariations\<close>

function variations_loop ::
    "(nat \<Rightarrow> format \<Rightarrow> bool) \<Rightarrow> PromoConfig \<Rightarrow> TextVariation list \<Rightarrow> int \<Rightarrow> nat \<Rightarrow> batch \<Rightarrow> batch" where
  "variations_loop raster config textVariations quantity i state =
     (if int i < quantity
      then variations_loop raster config textVariations quantity (Suc i)
             (render_cell raster config (cell_variation textVariations i) (cell_color config i)
                i Facebook state)
      else state)"
  by pat_completeness auto
termination
  by (relation "measure (\<lambda>(raster, config, textVariations, quantity, i, state). nat (quantity - int i))")
     auto

declare variations_loop.simps [simp del]

definition FlyerGenerator_generateVariations ::
    "environment \<Rightarrow> PromoConfig \<Rightarrow> int \<Rightarrow> error + batch" where
  "FlyerGenerator_generateVariations env config quantity =
     bind (ensureOutputDirectory (mkdir_outcome env)) (\<lambda>created.
     bind (TextGenerator_generateVariations (reply env) config quantity ''English'')
       (\<lambda>textVariations.
          if length textVariations = 0 then Inl NoTextVariations
          else Inr (variations_loop (rasterizes env) config textVariations quantity 0
                      \<lparr>flyers = [], requests = []\<rparr>)))"

subsection \<open>generateForAllFormats\<close>

definition formats :: "format list" where
  "formats = [Facebook, Instagram, Story]"

function all_formats_loop ::
    "(nat \<Rightarrow> format \<Rightarrow> bool) \<Rightarrow> PromoConfig \<Rightarrow> TextVariation list \<Rightarrow> int \<Rightarrow> nat \<Rightarrow> batch \<Rightarrow> batch" where
  "all_formats_loop raster config textVariations quantity i state =
     (if int i < quantity
      then all_formats_loop raster config textVariations quantity (Suc i)
             (foldl (\<lambda>st format'.
                       render_cell raster config (cell_variation textVariations i)
                         (cell_color config i) i format' st)
                    state formats)
      else state)"
  by pat_completeness auto
termination
  by (relation "measure (\<lambda>(raster, config, textVariations, quantity, i, state). nat (quantity - int i))")
     auto

declare all_formats_loop.simps [simp del]

definition generateForAllFormats :: "environment \<Rightarrow> PromoConfig \<Rightarrow> int \<Rightarrow> error + batch" where
  "generateForAllFormats env config quantity =
     bind (ensureOutputDirectory (mkdir_outcome env)) (\<lambda>created.
     bind (TextGenerator_generateVariations (reply env) config quantity ''English'')
       (\<lambda>textVariations.
          if length textVariations = 0 then Inl NoTextVariations
          else Inr (all_formats_loop (rasterizes env) config textVariations quantity 0
                      \<lparr>flyers = [], requests = []\<rparr>)))"

subsection \<open>generateCustomVariations\<close>

text \<open>The colours default to three fixed ones when the caller passes none.\<close>

definition quickConfig :: "string \<Rightarrow> string \<Rightarrow> string list option \<Rightarrow> PromoConfig" where
  "quickConfig productName offerText colorList =
     \<lparr>product' = productName,
      businessType = ''local business'',
      offer = offerText,
      validity = ''Limited time offer'',
      location = ''Visit our store!'',
      phone = ''Call us at (555) 123-4567'',
      schedule = ''Open Monday to Saturday'',
      colors = (case colorList of
                  None \<Rightarrow> [''#3498DB'', ''#E74C3C'', ''#2ECC71'']
                | Some given \<Rightarrow> given),
      sizes = \<lparr>facebook = \<lparr>size_width = 1200, size_height = 630\<rparr>,
               instagram = \<lparr>size_width = 1080, size_height = 1080\<rparr>,
               story = \<lparr>size_width = 1080, size_height = 1920\<rparr>\<rparr>\<rparr>"

definition generateCustomVariations ::
    "environment \<Rightarrow> string \<Rightarrow> string \<Rightarrow> string list option \<Rightarrow> int \<Rightarrow> error + batch" where
  "generateCustomVariations env productName offerText colorList quantity =
     FlyerGenerator_generateVariations env (quickConfig productName offerText colorList) quantity"

subsection \<open>Notions the statements about colours use\<close>

text \<open>A colour in the format \<^verbatim>\<open>#RRGGBB\<close>: a hash sign and six hexadecimal digits.\<close>

definition valid_hex_color :: "string \<Rightarrow> bool" where
  "valid_hex_color c = (length c = 7 \<and> take 1 c = ''#'' \<and> list_all is_hex_digit (drop 1 c))"

text \<open>The value of the \<open>k\<close>-th pair of digits of such a colour: red, green, blue.\<close>

definition digit_of :: "char \<Rightarrow> int" where
  "digit_of c = (case hex_digit_value c of Some v \<Rightarrow> v | None \<Rightarrow> 0)"

definition channel_value :: "string \<Rightarrow> nat \<Rightarrow> int" where
  "channel_value c k = 16 * digit_of (c ! (2 * k + 1)) + digit_of (c ! (2 * k + 2))"

text \<open>
  The luminance as the specification writes it,
  \<open>L = (0.299 R + 0.587 G + 0.114 B) / 255\<close>, in exact arithmetic.
\<close>

definition exact_luminance :: "int \<Rightarrow> int \<Rightarrow> int \<Rightarrow> rat" where
  "exact_luminance r g b =
     (299 / 1000 * of_int r + 587 / 1000 * of_int g + 114 / 1000 * of_int b) / 255"

text \<open>A letter in lower case; any other character is left alone.\<close>

definition lower_case :: "char \<Rightarrow> char" where
  "lower_case c =
     (case map_of (zip ''ABCDEFGHIJKLMNOPQRSTUVWXYZ'' ''abcdefghijklmnopqrstuvwxyz'') c of
        Some l \<Rightarrow> l
      | None \<Rightarrow> c)"

subsection \<open>Notions the statements about text variations use\<close>

text \<open>All five fields of a text variation are populated; the four texts are within their caps.\<close>

definition populated :: "TextVariation \<Rightarrow> bool" where
  "populated v = (title v \<noteq> [] \<and> subtitle v \<noteq> [] \<and> callToAction v \<noteq> []
                  \<and> description v \<noteq> [] \<and> tone v \<noteq> [])"

definition within_caps :: "TextVariation \<Rightarrow> bool" where
  "within_caps v = (length (title v) \<le> 50 \<and> length (subtitle v) \<le> 80
                    \<and> length (callToAction v) \<le> 30 \<and> length (description v) \<le> 200)"

subsection \<open>Notions the statements about batches use\<close>

text \<open>
  The rasterisation request and the flyer record of cell \<open>i\<close> in a format, for a batch
  with the text variations \<open>tvs\<close>.
\<close>

definition expected_request ::
    "PromoConfig \<Rightarrow> TextVariation list \<Rightarrow> nat \<Rightarrow> format \<Rightarrow> render_request" where
  "expected_request config tvs i format' =
     \<lparr>request_text = tvs ! (i mod length tvs),
      request_canvas = cell_canvas config (cell_color config i) format',
      request_filename = cell_filename i (Some (tvs ! (i mod length tvs))) format'\<rparr>"

definition expected_flyer ::
    "PromoConfig \<Rightarrow> TextVariation list \<Rightarrow> nat \<Rightarrow> format \<Rightarrow> GeneratedFlyer" where
  "expected_flyer config tvs i format' =
     \<lparr>filename = cell_filename i (Some (tvs ! (i mod length tvs))) format',
      textVariation = tvs ! (i mod length tvs),
      color = cell_color config i,
      format = format'\<rparr>"

section \<open>Sample inputs\<close>

text \<open>Concrete inputs on which the statements below are evaluated.\<close>

definition sample_config :: PromoConfig where
  "sample_config =
     \<lparr>product' = ''Pizza'', businessType = ''restaurant'', offer = ''50% off'',
      validity = ''Today only'', location = ''Main St'', phone = ''555-0100'',
      schedule = ''9-5'', colors = [''#FF0000'', ''#00FF00'', ''#0000FF''],
      sizes = \<lparr>facebook = \<lparr>size_width = 1200, size_height = 630\<rparr>,
               instagram = \<lparr>size_width = 1080, size_height = 1080\<rparr>,
               story = \<lparr>size_width = 1080, size_height = 1920\<rparr>\<rparr>\<rparr>"

definition first_variation :: TextVariation where
  "first_variation =
     \<lparr>title = ''Limited Offer!'', subtitle = ''Save today'', callToAction = ''Buy Now!'',
      description = ''Enjoy an exclusive discount on Pizza.'', tone = ''urgent''\<rparr>"

definition second_variation :: TextVariation where
  "second_variation =
     \<lparr>title = ''Discover Excellence'', subtitle = ''Quality you deserve'',
      callToAction = ''Explore More'', description = ''Perfection in every slice.'',
      tone = ''elegant''\<rparr>"

definition as_element :: "TextVariation \<Rightarrow> element" where
  "as_element v =
     Object [(''title'', title v), (''subtitle'', subtitle v), (''callToAction'', callToAction v),
             (''description'', description v), (''tone'', tone v)]"

text \<open>A reply that parses to an array of two well-formed objects.\<close>

definition sample_reply :: completion where
  "sample_reply = Content (Json (Array [as_element first_variation, as_element second_variation]))"

definition sample_canvas :: CanvasConfig where
  "sample_canvas =
     \<lparr>width = 1200, height = 630, backgroundColor = ''#FF0000'', textColor = ''#FFFFFF'',
      accentColor = ''#646363''\<rparr>"

definition all_succeed :: "nat \<Rightarrow> format \<Rightarrow> bool" where
  "all_succeed i format' = True"

text \<open>The rasterisation of the second cell (index 1) fails, in every format.\<close>

definition second_fails :: "nat \<Rightarrow> format \<Rightarrow> bool" where
  "second_fails i format' = (i \<noteq> 1)"

definition calm_environment :: environment where
  "calm_environment = \<lparr>mkdir_outcome = Made, reply = sample_reply, rasterizes = all_succeed\<rparr>"

definition flaky_environment :: environment where
  "flaky_environment = \<lparr>mkdir_outcome = Made, reply = sample_reply, rasterizes = second_fails\<rparr>"

definition readonly_environment :: environment where
  "readonly_environment =
     \<lparr>mkdir_outcome = Raises ''EACCES'', reply = sample_reply, rasterizes = all_succeed\<rparr>"

section \<open>Properties of the number model\<close>

text \<open>
  \<open>pow2\<close> is the integer power of two, \<open>bit_length\<close> and \<open>ilog2\<close> find the binary
  exponent, and rounding leaves alone every value that already has a significand of 53 bits.
\<close>

lemma pow2_powi: "pow2 e = 2 powi e"
  by (simp add: pow2_def power_int_def power_one_over)

lemma pow2_nat: "pow2 (int n) = 2 ^ n"
  by (simp add: pow2_def)

lemma pow2_pos: "0 < pow2 e"
  by (simp add: pow2_powi)

lemma pow2_add: "pow2 (a + b) = pow2 a * pow2 b"
  by (simp add: pow2_powi power_int_add)

lemma pow2_Suc: "pow2 (e + 1) = 2 * pow2 e"
  using pow2_add [of e 1] pow2_nat [of 1] by simp

lemma pow2_shift: "pow2 (e + int n) = 2 ^ n * pow2 e"
  by (simp add: pow2_add pow2_nat)

lemma pow2_mono: "a \<le> b \<Longrightarrow> pow2 a \<le> pow2 b"
  by (simp add: pow2_powi power_int_increasing)

lemma pow2_strict_mono: "a < b \<Longrightarrow> pow2 a < pow2 b"
  by (simp add: pow2_powi power_int_strict_increasing)

lemma pow2_less_cancel: "pow2 a < pow2 b \<Longrightarrow> a < b"
  using pow2_mono [of b a] by (cases "a < b") auto

lemma pow2_nonneg_exp: "0 \<le> e \<Longrightarrow> pow2 e = of_int (2 ^ nat e)"
  by (simp add: pow2_def)

lemma bit_length_int:
  "0 < n \<Longrightarrow> 1 \<le> bit_length n \<and> 2 ^ nat (bit_length n - 1) \<le> n \<and> n < 2 ^ nat (bit_length n)"
proof (induction n rule: bit_length.induct)
  case (1 n)
  show ?case
  proof (cases "n div 2 = 0")
    case True
    with "1.prems" have n: "n = 1" by presburger
    show ?thesis
      unfolding n by (simp add: bit_length.simps [of 1] bit_length.simps [of 0])
  next
    case False
    with "1.prems" have pos: "0 < n div 2" by presburger
    have bl: "bit_length n = bit_length (n div 2) + 1"
      using "1.prems" by (simp add: bit_length.simps [of n])
    from "1.IH" "1.prems" pos
    have ih: "1 \<le> bit_length (n div 2)"
             "2 ^ nat (bit_length (n div 2) - 1) \<le> n div 2"
             "n div 2 < 2 ^ nat (bit_length (n div 2))"
      by auto
    define b where "b = nat (bit_length (n div 2) - 1)"
    have b1: "nat (bit_length (n div 2)) = Suc b" using ih(1) by (simp add: b_def)
    have b2: "nat (bit_length n - 1) = Suc b" using ih(1) by (simp add: b_def bl)
    have b3: "nat (bit_length n) = Suc (Suc b)" using ih(1) by (simp add: b_def bl)
    have lo: "2 * (n div 2) \<le> n" by presburger
    have hi: "n \<le> 2 * (n div 2) + 1" by presburger
    from ih(2) have "(2::int) ^ Suc b \<le> 2 * (n div 2)" by (simp add: b_def)
    with lo have low: "(2::int) ^ Suc b \<le> n" by linarith
    from ih(3) have "n div 2 + 1 \<le> 2 ^ Suc b" by (simp add: b1)
    then have "2 * (n div 2) + 2 \<le> 2 ^ Suc (Suc b)" by simp
    with hi have high: "n < 2 ^ Suc (Suc b)" by linarith
    have "1 \<le> bit_length n" using ih(1) by (simp add: bl)
    then show ?thesis unfolding b2 b3 using low high by simp
  qed
qed

lemma bit_length_bounds:
  assumes "0 < n"
  shows "pow2 (bit_length n - 1) \<le> of_int n" and "of_int n < pow2 (bit_length n)"
proof -
  from bit_length_int [OF assms]
  have b: "1 \<le> bit_length n" "2 ^ nat (bit_length n - 1) \<le> n" "n < 2 ^ nat (bit_length n)"
    by auto
  have "pow2 (bit_length n - 1) = of_int (2 ^ nat (bit_length n - 1))"
    using b(1) by (simp add: pow2_nonneg_exp)
  also have "\<dots> \<le> of_int n" using b(2) by (subst of_int_le_iff)
  finally show "pow2 (bit_length n - 1) \<le> of_int n" .
  have "(of_int n :: rat) < of_int (2 ^ nat (bit_length n))"
    using b(3) by (subst of_int_less_iff)
  also have "\<dots> = pow2 (bit_length n)" using b(1) by (simp add: pow2_nonneg_exp)
  finally show "of_int n < pow2 (bit_length n)" .
qed

text \<open>ilog2 is the binary exponent.\<close>

lemma ilog2_bounds:
  assumes "0 < a"
  shows "pow2 (ilog2 a) \<le> a" and "a < pow2 (ilog2 a + 1)"
proof -
  obtain p q where pq: "quotient_of a = (p, q)" by (cases "quotient_of a")
  then have q: "0 < q" by (rule quotient_of_denom_pos)
  have a: "a = of_int p / of_int q" using pq by (rule quotient_of_div)
  with assms q have p: "0 < p" by (simp add: zero_less_divide_iff)
  define k where "k = bit_length p - bit_length q"
  note bp = bit_length_bounds [OF p] and bq = bit_length_bounds [OF q]
  have qpos: "(0::rat) < of_int q" using q by simp
  have lower: "pow2 (k - 1) < a"
  proof -
    have "pow2 (k - 1) * of_int q < pow2 (k - 1) * pow2 (bit_length q)"
      using bq(2) pow2_pos [of "k - 1"] by simp
    also have "\<dots> = pow2 (bit_length p - 1)"
      by (simp add: k_def pow2_add [symmetric])
    also have "\<dots> \<le> of_int p" by (rule bp(1))
    finally show ?thesis using qpos by (simp add: a pos_less_divide_eq)
  qed
  have upper: "a < pow2 (k + 1)"
  proof -
    have "of_int p < pow2 (bit_length p)" by (rule bp(2))
    also have "\<dots> = pow2 (k + 1) * pow2 (bit_length q - 1)"
      by (simp add: k_def pow2_add [symmetric])
    also have "\<dots> \<le> pow2 (k + 1) * of_int q"
      using bq(1) pow2_pos [of "k + 1"] by simp
    finally show ?thesis using qpos by (simp add: a pos_divide_less_eq)
  qed
  have il: "ilog2 a = (if pow2 k \<le> a then k else k - 1)"
    by (simp add: ilog2_def pq k_def Let_def)
  show "pow2 (ilog2 a) \<le> a" using lower by (simp add: il less_imp_le)
  show "a < pow2 (ilog2 a + 1)" using upper by (auto simp: il not_le)
qed

lemma ilog2_unique:
  assumes "pow2 e \<le> a" and "a < pow2 (e + 1)"
  shows "ilog2 a = e"
proof -
  have pos: "0 < a" using assms(1) pow2_pos [of e] by linarith
  note b = ilog2_bounds [OF pos]
  have "pow2 e < pow2 (ilog2 a + 1)" using assms(1) b(2) by linarith
  then have 1: "e < ilog2 a + 1" by (rule pow2_less_cancel)
  have "pow2 (ilog2 a) < pow2 (e + 1)" using assms(2) b(1) by linarith
  then have 2: "ilog2 a < e + 1" by (rule pow2_less_cancel)
  from 1 2 show ?thesis by linarith
qed

lemma round_half_even_of_int: "round_half_even (of_int m) = m"
  by (simp add: round_half_even_def)

text \<open>A value that has a 53-bit significand is a double.\<close>

lemma fl_exact:
  assumes m: "2 ^ 52 \<le> m" "m \<le> 2 ^ 53"
  shows "fl (of_int m * pow2 e) = of_int m * pow2 e"
    and "fl (- (of_int m * pow2 e)) = - (of_int m * pow2 e)"
proof -
  define x where "x = (of_int m :: rat) * pow2 e"
  have mpos: "(0::rat) < of_int m" using m(1) by simp
  have xpos: "0 < x" using mpos pow2_pos [of e] by (simp add: x_def)
  have rounds: "sgn x * of_int (round_half_even (x / pow2 (ilog2 x - 52))) * pow2 (ilog2 x - 52) = x"
  proof (cases "m = 2 ^ 53")
    case True
    have x: "x = pow2 (e + 53)"
      using pow2_shift [of e 53] by (simp add: x_def True)
    have il: "ilog2 x = e + 53"
      by (rule ilog2_unique) (simp_all add: x pow2_strict_mono)
    have split: "pow2 (e + 53) = of_int (2 ^ 52) * pow2 (e + 1)"
      using pow2_shift [of "e + 1" 52] by (simp add: add.assoc)
    have "x / pow2 (e + 1) = of_int (2 ^ 52)"
      using pow2_pos [of "e + 1"] by (simp add: x split)
    then have r: "round_half_even (x / pow2 (e + 1)) = 2 ^ 52"
      by (simp only: round_half_even_of_int)
    have "ilog2 x - 52 = e + 1" by (simp add: il)
    then have u: "pow2 (ilog2 x - 52) = pow2 (e + 1)" by (rule arg_cong)
    have "sgn x * of_int (2 ^ 52) * pow2 (e + 1) = x"
      using xpos split by (simp add: x)
    then show ?thesis unfolding u r .
  next
    case False
    with m have m53: "m < 2 ^ 53" by simp
    have lo: "pow2 (e + 52) \<le> x"
    proof -
      have "pow2 (e + 52) = of_int (2 ^ 52) * pow2 e"
        using pow2_shift [of e 52] by simp
      also have "\<dots> \<le> of_int m * pow2 e"
        using m(1) pow2_pos [of e] by (intro mult_right_mono) (simp_all add: less_imp_le)
      finally show ?thesis by (simp add: x_def)
    qed
    have hi: "x < pow2 (e + 52 + 1)"
    proof -
      have "(of_int m :: rat) < of_int (2 ^ 53)" using m53 by (subst of_int_less_iff)
      then have "of_int m * pow2 e < of_int (2 ^ 53) * pow2 e"
        using pow2_pos [of e] by (intro mult_strict_right_mono)
      also have "\<dots> = pow2 (e + 52 + 1)"
        using pow2_shift [of e 53] by (simp add: add.assoc)
      finally show ?thesis by (simp add: x_def)
    qed
    have il: "ilog2 x = e + 52" using lo hi by (rule ilog2_unique)
    have "ilog2 x - 52 = e" by (simp add: il)
    then have u: "pow2 (ilog2 x - 52) = pow2 e" by (rule arg_cong)
    have "x / pow2 e = of_int m" using pow2_pos [of e] by (simp add: x_def)
    then have r: "round_half_even (x / pow2 e) = m"
      by (simp only: round_half_even_of_int)
    have "sgn x * of_int m * pow2 e = x" using xpos by (simp add: x_def)
    then show ?thesis unfolding u r .
  qed
  have nz: "x \<noteq> 0" using xpos by simp
  show "fl (of_int m * pow2 e) = of_int m * pow2 e"
    using rounds nz xpos unfolding fl_def x_def [symmetric] by (simp add: Let_def)
  have "fl (- x) = - x"
    using rounds nz xpos unfolding fl_def by (simp add: Let_def)
  then show "fl (- (of_int m * pow2 e)) = - (of_int m * pow2 e)" by (simp add: x_def)
qed

lemma round_half_even_range:
  assumes "of_int lo \<le> q" and "q < of_int hi"
  shows "lo \<le> round_half_even q" and "round_half_even q \<le> hi"
proof -
  have 1: "lo \<le> \<lfloor>q\<rfloor>" using assms(1) by (simp add: le_floor_iff)
  have 2: "\<lfloor>q\<rfloor> < hi" using assms(2) by (simp add: floor_less_iff)
  have 3: "round_half_even q = \<lfloor>q\<rfloor> \<or> round_half_even q = \<lfloor>q\<rfloor> + 1"
    by (simp add: round_half_even_def Let_def)
  from 1 3 show "lo \<le> round_half_even q" by linarith
  from 2 3 show "round_half_even q \<le> hi" by linarith
qed

text \<open>Every value of \<open>fl\<close> is zero or has a 53-bit significand.\<close>

lemma fl_shape:
  assumes "x \<noteq> 0"
  obtains m e where "2 ^ 52 \<le> m" and "m \<le> 2 ^ 53" and "fl x = sgn x * (of_int m * pow2 e)"
proof -
  define a where "a = \<bar>x\<bar>"
  define e where "e = ilog2 a - 52"
  define m where "m = round_half_even (a / pow2 e)"
  have apos: "0 < a" using assms by (simp add: a_def)
  note b = ilog2_bounds [OF apos]
  have s52: "pow2 (ilog2 a) = 2 ^ 52 * pow2 e"
    using pow2_shift [of e 52] by (simp add: e_def)
  have s53: "pow2 (ilog2 a + 1) = 2 ^ 53 * pow2 e"
    using pow2_shift [of e 53] by (simp add: e_def ac_simps)
  have lo: "of_int (2 ^ 52) \<le> a / pow2 e"
    using b(1) pow2_pos [of e] by (simp add: s52 pos_le_divide_eq)
  have hi: "a / pow2 e < of_int (2 ^ 53)"
    using b(2) pow2_pos [of e] by (simp add: s53 pos_divide_less_eq)
  note r = round_half_even_range [OF lo hi]
  have "fl x = sgn x * (of_int m * pow2 e)"
    using assms by (simp add: fl_def Let_def a_def [symmetric] e_def [symmetric] m_def [symmetric])
  with r show ?thesis using that [of m e] by (simp add: m_def)
qed

lemma fl_idem: "fl (fl x) = fl x"
proof (cases "x = 0")
  case True
  then show ?thesis by (simp add: fl_def)
next
  case False
  then obtain m e where m: "2 ^ 52 \<le> m" "m \<le> 2 ^ 53"
    and f: "fl x = sgn x * (of_int m * pow2 e)"
    by (rule fl_shape)
  show ?thesis
  proof (cases "0 < x")
    case True
    then show ?thesis using fl_exact(1) [OF m, of e] by (simp add: f)
  next
    case neg: False
    with False have "x < 0" by simp
    then show ?thesis using fl_exact(2) [OF m, of e] by (simp add: f)
  qed
qed

lemma fl_zero: "fl 0 = 0"
  by (simp add: fl_def)

text \<open>The integers below \<open>2^53\<close> are doubles.\<close>

lemma fl_of_int:
  assumes "0 \<le> n" and "n < 2 ^ 53"
  shows "fl (of_int n) = of_int n"
proof (cases "n = 0")
  case True
  then show ?thesis by (simp add: fl_zero)
next
  case False
  with assms have pos: "0 < n" by simp
  from bit_length_int [OF pos]
  have b: "1 \<le> bit_length n" "2 ^ nat (bit_length n - 1) \<le> n" "n < 2 ^ nat (bit_length n)"
    by auto
  have "(2::int) ^ nat (bit_length n - 1) < 2 ^ 53" using b(2) assms(2) by linarith
  then have "nat (bit_length n - 1) < 53"
    using power_less_imp_less_exp [of "2::int" "nat (bit_length n - 1)" 53] by simp
  then have le: "bit_length n \<le> 53" by simp
  define k where "k = nat (53 - bit_length n)"
  define m where "m = n * 2 ^ k"
  have k1: "nat (bit_length n - 1) + k = 52" using b(1) le by (simp add: k_def)
  have k2: "nat (bit_length n) + k = 53" using b(1) le by (simp add: k_def)
  have "(2::int) ^ 52 = 2 ^ nat (bit_length n - 1) * 2 ^ k"
    by (simp only: power_add [symmetric] k1)
  also have "\<dots> \<le> m" unfolding m_def using b(2) by (intro mult_right_mono) simp_all
  finally have m1: "2 ^ 52 \<le> m" .
  have "m < 2 ^ nat (bit_length n) * 2 ^ k"
    unfolding m_def using b(3) by (intro mult_strict_right_mono) simp_all
  also have "\<dots> = 2 ^ 53" by (simp only: power_add [symmetric] k2)
  finally have m2: "m \<le> 2 ^ 53" by simp
  have "pow2 (- int k + int k) = 2 ^ k * pow2 (- int k)" by (rule pow2_shift)
  then have inv: "2 ^ k * pow2 (- int k) = 1" by (simp add: pow2_def)
  have "of_int m * pow2 (- int k) = of_int n * (2 ^ k * pow2 (- int k))"
    by (simp add: m_def)
  then have "of_int m * pow2 (- int k) = (of_int n :: rat)" by (simp only: inv mult_1_right)
  with fl_exact(1) [OF m1 m2, of "- int k"] show ?thesis by simp
qed

lemma fl_one: "fl 1 = 1"
  using fl_of_int [of 1] by simp

lemma fl_half: "fl (1 / 2) = 1 / 2"
proof -
  have eq: "of_int (2 ^ 52) * pow2 (- 53) = 1 / 2" by (simp add: pow2_def)
  have "fl (of_int (2 ^ 52) * pow2 (- 53)) = of_int (2 ^ 52) * pow2 (- 53)"
    by (rule fl_exact) simp_all
  then show ?thesis by (simp only: eq)
qed

lemma fl_quarter: "fl (1 / 4) = 1 / 4"
proof -
  have eq: "of_int (2 ^ 52) * pow2 (- 54) = 1 / 4" by (simp add: pow2_def)
  have "fl (of_int (2 ^ 52) * pow2 (- 54)) = of_int (2 ^ 52) * pow2 (- 54)"
    by (rule fl_exact) simp_all
  then show ?thesis by (simp only: eq)
qed

lemma jsadd_zero: "jsadd (fl z) 0 = fl z"
  by (simp add: jsadd_def fl_idem)

lemma jsmul_zero_left: "jsmul 0 a = 0"
  by (simp add: jsmul_def fl_zero)

text \<open>
  One rounding changes a value that is not negative by at most the fraction
  \<open>unit_roundoff\<close> of it, so the rounded value of anything between \<open>l e\<close> and \<open>h e\<close>
  lies between \<open>(1 - unit_roundoff) l e\<close> and \<open>(1 + unit_roundoff) h e\<close>.
\<close>

lemma round_half_even_near: "\<bar>of_int (round_half_even q) - q\<bar> \<le> 1 / 2"
proof -
  have "of_int \<lfloor>q\<rfloor> \<le> q" "q < of_int \<lfloor>q\<rfloor> + 1" by linarith+
  then show ?thesis by (auto simp: round_half_even_def Let_def abs_le_iff)
qed

lemma fl_error:
  assumes "0 \<le> x"
  shows "\<bar>fl x - x\<bar> \<le> unit_roundoff * x"
proof (cases "x = 0")
  case True
  then show ?thesis by (simp add: fl_def)
next
  case False
  with assms have pos: "0 < x" by simp
  define u where "u = pow2 (ilog2 x - 52)"
  define m where "m = round_half_even (x / u)"
  have upos: "0 < u" unfolding u_def by (rule pow2_pos)
  have "pow2 (ilog2 x) = 2 ^ 52 * u"
    using pow2_shift [of "ilog2 x - 52" 52] by (simp add: u_def)
  with ilog2_bounds(1) [OF pos] have ux: "2 ^ 52 * u \<le> x" by simp
  have flx: "fl x = of_int m * u"
    using pos by (simp add: fl_def Let_def u_def m_def)
  have "of_int m * u - x = (of_int m - x / u) * u"
    using upos by (simp add: left_diff_distrib)
  then have "\<bar>fl x - x\<bar> = \<bar>of_int m - x / u\<bar> * u"
    using upos by (simp add: flx abs_mult)
  also have "\<dots> \<le> 1 / 2 * u"
    using round_half_even_near [of "x / u"] upos
    unfolding m_def by (intro mult_right_mono) simp_all
  also have "\<dots> \<le> unit_roundoff * x" using ux by (simp add: unit_roundoff_def)
  finally show ?thesis .
qed

lemma fl_between:
  assumes "0 \<le> l" and "0 \<le> e" and "l * e \<le> x" and "x \<le> h * e"
  shows "(1 - unit_roundoff) * l * e \<le> fl x" and "fl x \<le> (1 + unit_roundoff) * h * e"
proof -
  have x: "0 \<le> x" using assms(1,2,3) mult_nonneg_nonneg [of l e] by linarith
  from fl_error [OF x] have 1: "x - unit_roundoff * x \<le> fl x" and 2: "fl x \<le> x + unit_roundoff * x"
    by (simp_all add: abs_le_iff)
  have u: "0 \<le> 1 - unit_roundoff" "0 \<le> 1 + unit_roundoff" by (simp_all add: unit_roundoff_def)
  have "(1 - unit_roundoff) * (l * e) \<le> (1 - unit_roundoff) * x"
    using assms(3) u(1) by (rule mult_left_mono)
  with 1 show "(1 - unit_roundoff) * l * e \<le> fl x" by (simp add: algebra_simps)
  have "(1 + unit_roundoff) * x \<le> (1 + unit_roundoff) * (h * e)"
    using assms(4) u(2) by (rule mult_left_mono)
  with 2 show "fl x \<le> (1 + unit_roundoff) * h * e" by (simp add: algebra_simps)
qed

section \<open>Properties of colour derivation\<close>

subsection \<open>Hexadecimal digits and channels\<close>

lemma hex_digit_enum:
  assumes "is_hex_digit c"
  shows "c = CHR ''0'' \<or> c = CHR ''1'' \<or> c = CHR ''2'' \<or> c = CHR ''3'' \<or> c = CHR ''4''
      \<or> c = CHR ''5'' \<or> c = CHR ''6'' \<or> c = CHR ''7'' \<or> c = CHR ''8'' \<or> c = CHR ''9''
      \<or> c = CHR ''a'' \<or> c = CHR ''b'' \<or> c = CHR ''c'' \<or> c = CHR ''d'' \<or> c = CHR ''e''
      \<or> c = CHR ''f'' \<or> c = CHR ''A'' \<or> c = CHR ''B'' \<or> c = CHR ''C'' \<or> c = CHR ''D''
      \<or> c = CHR ''E'' \<or> c = CHR ''F''"
  using assms
  by (simp add: is_hex_digit_def hex_digit_value_def hex_digit_table_def split: if_splits)

lemma hex_digit_plain:
  assumes "is_hex_digit c"
  shows "\<not> is_white_space c" and "c \<noteq> CHR ''-''" and "c \<noteq> CHR ''+''"
    and "c \<noteq> CHR ''x''" and "c \<noteq> CHR ''X''" and "c \<noteq> CHR ''#''"
  using hex_digit_enum [OF assms] by (elim disjE; simp add: is_white_space_def)+

lemma hex_digit_value_range:
  assumes "is_hex_digit c"
  shows "hex_digit_value c = Some (digit_of c)" and "0 \<le> digit_of c" and "digit_of c < 16"
  using hex_digit_enum [OF assms]
  by (elim disjE; simp add: digit_of_def hex_digit_value_def hex_digit_table_def)+

lemma digit_char_lower:
  assumes "is_hex_digit c"
  shows "digit_char (nat (digit_of c)) = lower_case c"
  using hex_digit_enum [OF assms]
  by (elim disjE;
      simp add: digit_of_def hex_digit_value_def hex_digit_table_def digit_char_def lower_case_def)

lemma hex_digits_small: "n < 16 \<Longrightarrow> hex_digits n = [digit_char n]"
  by (simp add: hex_digits.simps [of n])

lemma channel_text_pair:
  assumes "0 \<le> x" "x < 16" "0 \<le> y" "y < 16"
  shows "channel_text (Some (16 * x + y)) = [digit_char (nat x), digit_char (nat y)]"
proof (cases "x = 0")
  case True
  with assms show ?thesis
    by (simp add: channel_text_def toString16_def hex_digits_small padStart2_def digit_char_def)
next
  case False
  with assms have x: "0 < x" by simp
  have d: "nat (16 * x + y) div 16 = nat x" and m: "nat (16 * x + y) mod 16 = nat y"
    using assms by (simp_all add: nat_add_distrib nat_mult_distrib)
  have "\<not> nat (16 * x + y) < 16" using assms x by simp
  then have "hex_digits (nat (16 * x + y)) = hex_digits (nat x) @ [digit_char (nat y)]"
    by (simp add: hex_digits.simps [of "nat (16 * x + y)"] d m)
  with assms show ?thesis
    by (simp add: channel_text_def toString16_def hex_digits_small padStart2_def)
qed

lemma parseInt16_pair:
  assumes "is_hex_digit a" "is_hex_digit b"
  shows "parseInt16 [a, b] = Some (16 * digit_of a + digit_of b)"
  using hex_digit_plain [OF assms(1)] hex_digit_plain [OF assms(2)]
    hex_digit_value_range(1) [OF assms(1)] hex_digit_value_range(1) [OF assms(2)] assms
  by (simp add: parseInt16_def strip_sign_def strip_0x_def hex_value_def Let_def)

lemma valid_hex_color_shape:
  assumes "valid_hex_color c"
  obtains a b d e f g where "c = [CHR ''#'', a, b, d, e, f, g]"
    and "is_hex_digit a" "is_hex_digit b" "is_hex_digit d"
    and "is_hex_digit e" "is_hex_digit f" "is_hex_digit g"
proof -
  from assms have len: "length c = 7" by (simp add: valid_hex_color_def)
  then obtain h a b d e f g where c: "c = [h, a, b, d, e, f, g]"
    by (auto simp: length_Suc_conv eval_nat_numeral)
  with assms show ?thesis using that [of a b d e f g] by (simp add: valid_hex_color_def)
qed

lemma replace_hash:
  "replace (CHR ''#'' # digits) ''#'' [] = digits"
  by (simp add: replace_def)

lemma channels_valid:
  assumes "valid_hex_color c"
  shows "channels c = (Some (channel_value c 0), Some (channel_value c 1), Some (channel_value c 2))"
proof -
  from assms obtain a b d e f g where c: "c = [CHR ''#'', a, b, d, e, f, g]"
    and h: "is_hex_digit a" "is_hex_digit b" "is_hex_digit d"
           "is_hex_digit e" "is_hex_digit f" "is_hex_digit g"
    by (rule valid_hex_color_shape)
  show ?thesis
    unfolding c channels_def replace_hash
    by (simp add: substring_def channel_value_def parseInt16_pair h)
qed

lemma channel_value_range:
  assumes "valid_hex_color c" and "k < 3"
  shows "0 \<le> channel_value c k" and "channel_value c k < 256"
proof -
  from assms(1) obtain a b d e f g where c: "c = [CHR ''#'', a, b, d, e, f, g]"
    and h: "is_hex_digit a" "is_hex_digit b" "is_hex_digit d"
           "is_hex_digit e" "is_hex_digit f" "is_hex_digit g"
    by (rule valid_hex_color_shape)
  from assms(2) have k: "k = 0 \<or> k = 1 \<or> k = 2" by auto
  note r = h [THEN hex_digit_value_range(2)] h [THEN hex_digit_value_range(3)]
  show "0 \<le> channel_value c k" using k r by (auto simp: c channel_value_def)
  show "channel_value c k < 256" using k r by (auto simp: c channel_value_def)
qed

lemma channel_text_value:
  assumes "valid_hex_color c" and "k < 3"
  shows "channel_text (Some (channel_value c k)) =
         [lower_case (c ! (2 * k + 1)), lower_case (c ! (2 * k + 2))]"
proof -
  from assms(1) obtain a b d e f g where c: "c = [CHR ''#'', a, b, d, e, f, g]"
    and h: "is_hex_digit a" "is_hex_digit b" "is_hex_digit d"
           "is_hex_digit e" "is_hex_digit f" "is_hex_digit g"
    by (rule valid_hex_color_shape)
  from assms(2) have k: "k = 0 \<or> k = 1 \<or> k = 2" by auto
  have pair: "channel_text (Some (16 * digit_of x + digit_of y)) = [lower_case x, lower_case y]"
    if "is_hex_digit x" "is_hex_digit y" for x y
    using that
    by (simp add: channel_text_pair hex_digit_value_range(2,3) digit_char_lower)
  show ?thesis using k by (auto simp: c channel_value_def pair h)
qed

lemma sample_colors_valid:
  "valid_hex_color ''#FF8040''" "valid_hex_color ''#FFFF00''" "valid_hex_color ''#000080''"
  by (simp_all add: valid_hex_color_def is_hex_digit_def hex_digit_value_def hex_digit_table_def)

subsection \<open>Darken\<close>

lemma darken_channel_zero:
  assumes "0 \<le> n" and "n < 256"
  shows "darken_channel (Some n) 0 = Some n"
proof -
  have "n < 2 ^ 53" using assms(2) by simp
  with assms(1) have "fl (of_int n) = of_int n" by (rule fl_of_int)
  then show ?thesis by (simp add: darken_channel_def jssub_def jsmul_def fl_one)
qed

lemma darken_channel_one: "darken_channel (Some n) 1 = Some 0"
  by (simp add: darken_channel_def jssub_def jsmul_def fl_zero)

lemma channel_text_zero: "channel_text (Some 0) = ''00''"
  using channel_text_pair [of 0 0] by (simp add: digit_char_def)

lemma darkenColor_zero_lower:
  assumes "valid_hex_color c"
  shows "darkenColor c 0 = map lower_case c"
proof -
  from assms obtain a b d e f g where c: "c = [CHR ''#'', a, b, d, e, f, g]"
    by (rule valid_hex_color_shape)
  note r = channel_value_range [OF assms]
  show ?thesis
    by (simp add: darkenColor_def channels_valid [OF assms] darken_channel_zero r
        channel_text_value [OF assms])
       (simp add: c lower_case_def)
qed

lemma darkenColor_one_black:
  assumes "valid_hex_color c"
  shows "darkenColor c 1 = ''#000000''"
  by (simp add: darkenColor_def channels_valid [OF assms] darken_channel_one channel_text_zero)

text \<open>
  Claim C6, as amended.  For every colour \<open>c\<close> in the format \<^verbatim>\<open>#RRGGBB\<close>, darkening by
  the factor 0 gives \<open>c\<close> with its hexadecimal digits in lower case, which is the same
  colour, and darkening by the factor 1 gives pure black.  The digits come out in lower
  case because \<^verbatim>\<open>toString(16)\<close> prints them so.
\<close>

theorem darkenColor_zero_and_one:
  assumes "valid_hex_color c"
  shows "darkenColor c 0 = map lower_case c \<and> darkenColor c 1 = ''#000000''"
  using darkenColor_zero_lower [OF assms] darkenColor_one_black [OF assms] by simp

text \<open>
  Claim C6 at a concrete colour: the theorem applied to \<^verbatim>\<open>#FF8040\<close>.
\<close>

theorem darkenColor_zero_and_one_witness:
  "valid_hex_color ''#FF8040'' \<and> darkenColor ''#FF8040'' 0 = ''#ff8040''
   \<and> darkenColor ''#FF8040'' 1 = ''#000000''"
  using darkenColor_zero_and_one [OF sample_colors_valid(1)] sample_colors_valid(1)
  by (simp add: lower_case_def)

text \<open>
  Claim C6 as it is stated, \<open>Darken(c, 0) = c\<close>, fails for a colour written with
  upper-case digits: \<^verbatim>\<open>#FF0000\<close> comes back as \<^verbatim>\<open>#ff0000\<close>.
\<close>

theorem upper_case_is_not_kept:
  "valid_hex_color ''#FF0000'' \<and> darkenColor ''#FF0000'' 0 = ''#ff0000''
   \<and> darkenColor ''#FF0000'' 0 \<noteq> ''#FF0000''"
proof -
  have v: "valid_hex_color ''#FF0000''"
    by (simp add: valid_hex_color_def is_hex_digit_def hex_digit_value_def hex_digit_table_def)
  from darkenColor_zero_lower [OF v] show ?thesis using v by (simp add: lower_case_def)
qed

subsection \<open>Contrast\<close>

text \<open>
  The luminance that the code computes is the formula of the specification after five
  roundings at most: one of each weight, one of each product, two of the sums and one of
  the quotient.  It lies within the factors \<open>(1 - unit_roundoff) ^ 5\<close> and
  \<open>(1 + unit_roundoff) ^ 5\<close> of the exact value, which is a multiple of \<open>1 / 255000\<close>:
  the two are on the same side of one half, unless the exact value is one half.
\<close>

lemma weighted_channel:
  assumes "0 \<le> w" and "0 \<le> n"
  shows "(1 - unit_roundoff) ^ 2 * (w * of_int n) \<le> jsmul (fl w) (of_int n)"
    and "jsmul (fl w) (of_int n) \<le> (1 + unit_roundoff) ^ 2 * (w * of_int n)"
proof -
  define lo hi where "lo = 1 - unit_roundoff" and "hi = 1 + unit_roundoff"
  have lo: "0 \<le> lo" by (simp add: lo_def unit_roundoff_def)
  have n: "(0::rat) \<le> of_int n" using assms(2) by simp
  have e: "0 \<le> w * of_int n" using assms(1) n by (rule mult_nonneg_nonneg)
  from fl_between [of 1 w w 1] assms(1)
  have w: "lo * w \<le> fl w" "fl w \<le> hi * w" by (simp_all add: lo_def hi_def)
  have 1: "lo * (w * of_int n) \<le> fl w * of_int n"
    using mult_right_mono [OF w(1) n] by (simp add: mult.assoc)
  have 2: "fl w * of_int n \<le> hi * (w * of_int n)"
    using mult_right_mono [OF w(2) n] by (simp add: mult.assoc)
  from fl_between [OF lo e 1 2]
  show "(1 - unit_roundoff) ^ 2 * (w * of_int n) \<le> jsmul (fl w) (of_int n)"
    and "jsmul (fl w) (of_int n) \<le> (1 + unit_roundoff) ^ 2 * (w * of_int n)"
    by (simp_all add: jsmul_def lo_def hi_def power2_eq_square)
qed

lemma luminance_bounds:
  assumes "0 \<le> r" and "0 \<le> g" and "0 \<le> b"
  shows "(1 - unit_roundoff) ^ 5 * exact_luminance r g b \<le> luminance r g b"
    and "luminance r g b \<le> (1 + unit_roundoff) ^ 5 * exact_luminance r g b"
proof -
  define lo hi where "lo = 1 - unit_roundoff" and "hi = 1 + unit_roundoff"
  define e1 e2 e3 :: rat where "e1 = 299 / 1000 * of_int r" and "e2 = 587 / 1000 * of_int g"
    and "e3 = 114 / 1000 * of_int b"
  define p1 p2 p3 where "p1 = jsmul (fl (299 / 1000)) (of_int r)"
    and "p2 = jsmul (fl (587 / 1000)) (of_int g)" and "p3 = jsmul (fl (114 / 1000)) (of_int b)"
  define s1 s2 where "s1 = jsadd p1 p2" and "s2 = jsadd s1 p3"
  have lo: "0 \<le> lo" "lo \<le> 1" and hi: "1 \<le> hi" by (simp_all add: lo_def hi_def unit_roundoff_def)
  have e: "0 \<le> e1" "0 \<le> e2" "0 \<le> e3" using assms by (simp_all add: e1_def e2_def e3_def)
  have p1: "lo ^ 2 * e1 \<le> p1" "p1 \<le> hi ^ 2 * e1"
    using weighted_channel [of "299 / 1000" r] assms(1) by (simp_all add: p1_def e1_def lo_def hi_def)
  have p2: "lo ^ 2 * e2 \<le> p2" "p2 \<le> hi ^ 2 * e2"
    using weighted_channel [of "587 / 1000" g] assms(2) by (simp_all add: p2_def e2_def lo_def hi_def)
  have p3: "lo ^ 2 * e3 \<le> p3" "p3 \<le> hi ^ 2 * e3"
    using weighted_channel [of "114 / 1000" b] assms(3) by (simp_all add: p3_def e3_def lo_def hi_def)
  have s1: "lo ^ 3 * (e1 + e2) \<le> s1" "s1 \<le> hi ^ 3 * (e1 + e2)"
  proof -
    have 1: "lo ^ 2 * (e1 + e2) \<le> p1 + p2" using p1(1) p2(1) by (simp add: distrib_left)
    have 2: "p1 + p2 \<le> hi ^ 2 * (e1 + e2)" using p1(2) p2(2) by (simp add: distrib_left)
    have l2: "0 \<le> lo ^ 2" by simp
    have e12: "0 \<le> e1 + e2" using e by simp
    from fl_between [OF l2 e12 1 2]
    show "lo ^ 3 * (e1 + e2) \<le> s1" "s1 \<le> hi ^ 3 * (e1 + e2)"
      by (simp_all add: s1_def jsadd_def lo_def hi_def power3_eq_cube power2_eq_square mult.assoc)
  qed
  have s2: "lo ^ 4 * (e1 + e2 + e3) \<le> s2" "s2 \<le> hi ^ 4 * (e1 + e2 + e3)"
  proof -
    have "lo ^ 3 \<le> lo ^ 2" using lo by (intro power_decreasing) simp_all
    then have "lo ^ 3 * e3 \<le> lo ^ 2 * e3" using e(3) by (rule mult_right_mono)
    with p3(1) have a: "lo ^ 3 * e3 \<le> p3" by linarith
    have "hi ^ 2 \<le> hi ^ 3" using hi by (intro power_increasing) simp_all
    then have "hi ^ 2 * e3 \<le> hi ^ 3 * e3" using e(3) by (rule mult_right_mono)
    with p3(2) have b: "p3 \<le> hi ^ 3 * e3" by linarith
    have 1: "lo ^ 3 * (e1 + e2 + e3) \<le> s1 + p3" using s1(1) a by (simp add: distrib_left)
    have 2: "s1 + p3 \<le> hi ^ 3 * (e1 + e2 + e3)" using s1(2) b by (simp add: distrib_left)
    have l3: "0 \<le> lo ^ 3" using lo by simp
    have e123: "0 \<le> e1 + e2 + e3" using e by simp
    have four: "lo * lo ^ 3 = lo ^ 4" "hi * hi ^ 3 = hi ^ 4" by (simp_all add: eval_nat_numeral)
    from fl_between [OF l3 e123 1 2]
    show "lo ^ 4 * (e1 + e2 + e3) \<le> s2" "s2 \<le> hi ^ 4 * (e1 + e2 + e3)"
      unfolding four [symmetric] by (simp_all add: s2_def jsadd_def lo_def hi_def)
  qed
  have l: "lo ^ 5 * ((e1 + e2 + e3) / 255) \<le> jsdiv s2 255"
    "jsdiv s2 255 \<le> hi ^ 5 * ((e1 + e2 + e3) / 255)"
  proof -
    have 1: "lo ^ 4 * ((e1 + e2 + e3) / 255) \<le> s2 / 255" using s2(1) by (simp add: divide_right_mono)
    have 2: "s2 / 255 \<le> hi ^ 4 * ((e1 + e2 + e3) / 255)" using s2(2) by (simp add: divide_right_mono)
    have l4: "0 \<le> lo ^ 4" using lo by simp
    have e123: "0 \<le> (e1 + e2 + e3) / 255" using e by simp
    have five: "lo * lo ^ 4 = lo ^ 5" "hi * hi ^ 4 = hi ^ 5" by (simp_all add: eval_nat_numeral)
    from fl_between [OF l4 e123 1 2]
    show "lo ^ 5 * ((e1 + e2 + e3) / 255) \<le> jsdiv s2 255"
      "jsdiv s2 255 \<le> hi ^ 5 * ((e1 + e2 + e3) / 255)"
      unfolding five [symmetric] by (simp_all add: jsdiv_def lo_def hi_def)
  qed
  have lum: "luminance r g b = jsdiv s2 255"
    by (simp add: luminance_def s2_def s1_def p1_def p2_def p3_def)
  have ex: "exact_luminance r g b = (e1 + e2 + e3) / 255"
    by (simp add: exact_luminance_def e1_def e2_def e3_def)
  from l show "(1 - unit_roundoff) ^ 5 * exact_luminance r g b \<le> luminance r g b"
    and "luminance r g b \<le> (1 + unit_roundoff) ^ 5 * exact_luminance r g b"
    by (simp_all only: lum ex lo_def hi_def)
qed

lemma exact_luminance_sum:
  "exact_luminance r g b = of_int (299 * r + 587 * g + 114 * b) / 255000"
  by (simp add: exact_luminance_def field_simps)

lemma exact_luminance_half:
  "1 / 2 < exact_luminance r g b \<longleftrightarrow> 127500 < 299 * r + 587 * g + 114 * b"
  "exact_luminance r g b < 1 / 2 \<longleftrightarrow> 299 * r + 587 * g + 114 * b < 127500"
proof -
  define S where "S = 299 * r + 587 * g + 114 * b"
  have "1 / 2 < (of_int S :: rat) / 255000 \<longleftrightarrow> (of_int 127500 :: rat) < of_int S"
    by (simp add: field_simps)
  also have "\<dots> \<longleftrightarrow> 127500 < S" by (simp only: of_int_less_iff)
  finally show "1 / 2 < exact_luminance r g b \<longleftrightarrow> 127500 < 299 * r + 587 * g + 114 * b"
    by (simp only: exact_luminance_sum S_def)
  have "(of_int S :: rat) / 255000 < 1 / 2 \<longleftrightarrow> (of_int S :: rat) < of_int 127500"
    by (simp add: field_simps)
  also have "\<dots> \<longleftrightarrow> S < 127500" by (simp only: of_int_less_iff)
  finally show "exact_luminance r g b < 1 / 2 \<longleftrightarrow> 299 * r + 587 * g + 114 * b < 127500"
    by (simp only: exact_luminance_sum S_def)
qed

lemma luminance_above:
  assumes "0 \<le> r" and "0 \<le> g" and "0 \<le> b" and "1 / 2 < exact_luminance r g b"
  shows "1 / 2 < luminance r g b"
proof -
  define S where "S = 299 * r + 587 * g + 114 * b"
  from assms(4) have "127501 \<le> S" unfolding exact_luminance_half S_def by linarith
  then have "(of_int 127501 :: rat) \<le> of_int S" by (simp only: of_int_le_iff)
  then have "(127501 :: rat) / 255000 \<le> exact_luminance r g b"
    by (simp add: exact_luminance_sum S_def)
  moreover have "(0::rat) \<le> (1 - unit_roundoff) ^ 5" by (simp add: unit_roundoff_def)
  ultimately have "(1 - unit_roundoff) ^ 5 * (127501 / 255000) \<le>
      (1 - unit_roundoff) ^ 5 * exact_luminance r g b"
    by (rule mult_left_mono)
  moreover have "1 / 2 < (1 - unit_roundoff) ^ 5 * (127501 / 255000)"
    by (simp add: unit_roundoff_def power_divide)
  ultimately show ?thesis using luminance_bounds(1) [OF assms(1-3)] by linarith
qed

lemma luminance_below:
  assumes "0 \<le> r" and "0 \<le> g" and "0 \<le> b" and "exact_luminance r g b < 1 / 2"
  shows "luminance r g b < 1 / 2"
proof -
  define S where "S = 299 * r + 587 * g + 114 * b"
  from assms(4) have "S \<le> 127499" unfolding exact_luminance_half S_def by linarith
  then have "(of_int S :: rat) \<le> of_int 127499" by (simp only: of_int_le_iff)
  then have "exact_luminance r g b \<le> (127499 :: rat) / 255000"
    by (simp add: exact_luminance_sum S_def)
  moreover have "(0::rat) \<le> (1 + unit_roundoff) ^ 5" by (simp add: unit_roundoff_def)
  ultimately have "(1 + unit_roundoff) ^ 5 * exact_luminance r g b \<le>
      (1 + unit_roundoff) ^ 5 * (127499 / 255000)"
    by (rule mult_left_mono)
  moreover have "(1 + unit_roundoff) ^ 5 * (127499 / 255000) < 1 / 2"
    by (simp add: unit_roundoff_def power_divide)
  ultimately show ?thesis using luminance_bounds(2) [OF assms(1-3)] by linarith
qed

lemma getContrastColor_valid:
  assumes "valid_hex_color c"
  shows "getContrastColor c =
           (if 1 / 2 < luminance (channel_value c 0) (channel_value c 1) (channel_value c 2)
            then ''#000000'' else ''#FFFFFF'')"
  by (simp add: getContrastColor_def channels_valid [OF assms] fl_half)

text \<open>
  Claim C7, as amended.  For every colour in the format \<^verbatim>\<open>#RRGGBB\<close> the contrast
  colour is pure black or pure white, and never any other colour: black exactly when
  \<^verbatim>\<open>(0.299 * R + 0.587 * G + 0.114 * B) / 255\<close>, evaluated in double precision from left
  to right with every weight, product, sum and quotient rounded, exceeds 0.5.  In terms
  of the exact luminance \<open>L = (0.299 R + 0.587 G + 0.114 B) / 255\<close>: black when \<open>L\<close>
  exceeds 0.5 and white when \<open>L\<close> is below 0.5; where \<open>L\<close> is 0.5 exactly, the roundings
  decide.
\<close>

theorem getContrastColor_by_luminance:
  assumes "valid_hex_color c"
  shows "getContrastColor c =
           (if 1 / 2 < jsdiv (jsadd (jsadd (jsmul (fl (299 / 1000)) (of_int (channel_value c 0)))
                                            (jsmul (fl (587 / 1000)) (of_int (channel_value c 1))))
                                     (jsmul (fl (114 / 1000)) (of_int (channel_value c 2))))
                             255
            then ''#000000'' else ''#FFFFFF'')
         \<and> (1 / 2 < exact_luminance (channel_value c 0) (channel_value c 1) (channel_value c 2)
              \<longrightarrow> getContrastColor c = ''#000000'')
         \<and> (exact_luminance (channel_value c 0) (channel_value c 1) (channel_value c 2) < 1 / 2
              \<longrightarrow> getContrastColor c = ''#FFFFFF'')"
proof (intro conjI impI)
  note v = getContrastColor_valid [OF assms]
  note r = channel_value_range(1) [OF assms, of 0] channel_value_range(1) [OF assms, of 1]
    channel_value_range(1) [OF assms, of 2]
  show "getContrastColor c =
           (if 1 / 2 < jsdiv (jsadd (jsadd (jsmul (fl (299 / 1000)) (of_int (channel_value c 0)))
                                            (jsmul (fl (587 / 1000)) (of_int (channel_value c 1))))
                                     (jsmul (fl (114 / 1000)) (of_int (channel_value c 2))))
                             255
            then ''#000000'' else ''#FFFFFF'')"
    using v by (simp only: luminance_def)
  show "getContrastColor c = ''#000000''"
    if "1 / 2 < exact_luminance (channel_value c 0) (channel_value c 1) (channel_value c 2)"
    using luminance_above [OF _ _ _ that] r v by simp
  show "getContrastColor c = ''#FFFFFF''"
    if "exact_luminance (channel_value c 0) (channel_value c 1) (channel_value c 2) < 1 / 2"
    using luminance_below [OF _ _ _ that] r v by simp
qed

lemma sample_channels:
  "channel_value ''#FFFF00'' 0 = 255" "channel_value ''#FFFF00'' 1 = 255"
  "channel_value ''#FFFF00'' 2 = 0" "channel_value ''#000080'' 0 = 0"
  "channel_value ''#000080'' 1 = 0" "channel_value ''#000080'' 2 = 128"
  by (simp_all add: channel_value_def digit_of_def hex_digit_value_def hex_digit_table_def)

lemma sample_luminances:
  "1 / 2 < exact_luminance 255 255 0" "exact_luminance 0 0 128 < 1 / 2"
  by (simp_all add: exact_luminance_def)

text \<open>
  Claim C7 at two concrete colours: yellow is light, so the text on it is black; navy
  is dark, so the text on it is white.
\<close>

theorem getContrastColor_by_luminance_witness:
  "valid_hex_color ''#FFFF00''
   \<and> 1 / 2 < exact_luminance (channel_value ''#FFFF00'' 0) (channel_value ''#FFFF00'' 1)
                (channel_value ''#FFFF00'' 2)
   \<and> getContrastColor ''#FFFF00'' = ''#000000''
   \<and> valid_hex_color ''#000080''
   \<and> exact_luminance (channel_value ''#000080'' 0) (channel_value ''#000080'' 1)
        (channel_value ''#000080'' 2) < 1 / 2
   \<and> getContrastColor ''#000080'' = ''#FFFFFF''"
proof -
  note light = getContrastColor_by_luminance [OF sample_colors_valid(2)]
  note dark = getContrastColor_by_luminance [OF sample_colors_valid(3)]
  have l: "1 / 2 < exact_luminance (channel_value ''#FFFF00'' 0) (channel_value ''#FFFF00'' 1)
                     (channel_value ''#FFFF00'' 2)"
    by (simp only: sample_channels sample_luminances)
  have d: "exact_luminance (channel_value ''#000080'' 0) (channel_value ''#000080'' 1)
             (channel_value ''#000080'' 2) < 1 / 2"
    by (simp only: sample_channels sample_luminances)
  from light l have black: "getContrastColor ''#FFFF00'' = ''#000000''" by (elim conjE) (rule mp)
  from dark d have white: "getContrastColor ''#000080'' = ''#FFFFFF''" by (elim conjE) (rule mp)
  show ?thesis by (intro conjI sample_colors_valid l d black white)
qed

lemma threshold_colors_valid:
  "valid_hex_color ''#DA3AF8''" "valid_hex_color ''#16CE00''"
  by (simp_all add: valid_hex_color_def is_hex_digit_def hex_digit_value_def hex_digit_table_def)

lemma threshold_channels:
  "channel_value ''#DA3AF8'' 0 = 218" "channel_value ''#DA3AF8'' 1 = 58"
  "channel_value ''#DA3AF8'' 2 = 248" "channel_value ''#16CE00'' 0 = 22"
  "channel_value ''#16CE00'' 1 = 206" "channel_value ''#16CE00'' 2 = 0"
  by (simp_all add: channel_value_def digit_of_def hex_digit_value_def hex_digit_table_def)

lemma luminance_rounding:
  "1 / 2 < luminance 218 58 248" "\<not> 1 / 2 < luminance 22 206 0"
  by code_simp+

text \<open>
  Claim C7 as it is stated, black when \<open>L\<close> exceeds 0.5 and white otherwise, fails for
  the colour \<^verbatim>\<open>#DA3AF8\<close>: its luminance is one half exactly (the weighted sum is
  127500 of 255000) and does not exceed 0.5, but the rounded sum lies just above one half
  and the code answers black.
\<close>

theorem exact_half_gives_black:
  "valid_hex_color ''#DA3AF8''
   \<and> exact_luminance (channel_value ''#DA3AF8'' 0) (channel_value ''#DA3AF8'' 1)
        (channel_value ''#DA3AF8'' 2) = 1 / 2
   \<and> getContrastColor ''#DA3AF8'' = ''#000000''"
proof -
  have "exact_luminance 218 58 248 = 1 / 2" by (simp add: exact_luminance_def)
  then have half: "exact_luminance (channel_value ''#DA3AF8'' 0) (channel_value ''#DA3AF8'' 1)
        (channel_value ''#DA3AF8'' 2) = 1 / 2"
    by (simp only: threshold_channels)
  have "getContrastColor ''#DA3AF8'' =
          (if 1 / 2 < luminance 218 58 248 then ''#000000'' else ''#FFFFFF'')"
    using getContrastColor_valid [OF threshold_colors_valid(1)] by (simp only: threshold_channels)
  with luminance_rounding(1) have black: "getContrastColor ''#DA3AF8'' = ''#000000''"
    by (simp only: if_True)
  show ?thesis by (intro conjI threshold_colors_valid(1) half black)
qed

text \<open>
  At another colour of luminance one half, \<^verbatim>\<open>#16CE00\<close>, the rounded value does
  not exceed one half and the code answers white.
\<close>

lemma exact_half_gives_white:
  "exact_luminance (channel_value ''#16CE00'' 0) (channel_value ''#16CE00'' 1)
        (channel_value ''#16CE00'' 2) = 1 / 2
   \<and> getContrastColor ''#16CE00'' = ''#FFFFFF''"
proof -
  have "exact_luminance 22 206 0 = 1 / 2" by (simp add: exact_luminance_def)
  then have half: "exact_luminance (channel_value ''#16CE00'' 0) (channel_value ''#16CE00'' 1)
        (channel_value ''#16CE00'' 2) = 1 / 2"
    by (simp only: threshold_channels)
  have "getContrastColor ''#16CE00'' =
          (if 1 / 2 < luminance 22 206 0 then ''#000000'' else ''#FFFFFF'')"
    using getContrastColor_valid [OF threshold_colors_valid(2)] by (simp only: threshold_channels)
  with luminance_rounding(2) have white: "getContrastColor ''#16CE00'' = ''#FFFFFF''"
    by (simp only: if_False)
  show ?thesis by (intro conjI half white)
qed

subsection \<open>Accent\<close>

text \<open>
  On an input without a leading hash sign or of a length other than seven the accent is
  the gold fallback; on a colour in the format \<^verbatim>\<open>#RRGGBB\<close> it is the sky-blue fallback
  when the three channels are equal and otherwise the colour whose channels are
  \<open>(255 - channel + 100) mod 256\<close>.
\<close>

lemma getAccentColor_malformed:
  assumes "take 1 c \<noteq> ''#'' \<or> length c \<noteq> 7"
  shows "getAccentColor c = ''#FFD700''"
  using assms by (auto simp: getAccentColor_def)

lemma accent_channel_value:
  assumes "0 \<le> n" and "n < 256"
  shows "accent_channel (Some n) = Some ((355 - n) mod 256)"
proof -
  have pos: "0 < 355 - n" using assms by simp
  have "jsrem (255 - n + 100) 256 = (355 - n) mod 256"
    using pos by (simp add: jsrem_def)
  moreover have "0 \<le> (355 - n) mod 256" "(355 - n) mod 256 < 256" by simp_all
  ultimately show ?thesis by (simp add: accent_channel_def)
qed

lemma getAccentColor_valid:
  assumes "valid_hex_color c"
  shows "getAccentColor c =
           (if channel_value c 0 = channel_value c 1 \<and> channel_value c 1 = channel_value c 2
            then ''#00BFFF''
            else ''#'' @ channel_text (Some ((355 - channel_value c 0) mod 256))
                 @ channel_text (Some ((355 - channel_value c 1) mod 256))
                 @ channel_text (Some ((355 - channel_value c 2) mod 256)))"
proof -
  from assms have shape: "c \<noteq> []" "take 1 c = ''#''" "length c = 7"
    by (auto simp: valid_hex_color_def)
  note r = channel_value_range [OF assms]
  show ?thesis
    using shape
    by (simp add: getAccentColor_def channels_valid [OF assms] achromatic_def
        accent_channel_value r)
qed

text \<open>
  Claim C8 says that every input string falls into one of these three cases.  An input
  of seven characters that starts with a hash sign and has other characters than
  hexadecimal digits falls into none: its channels are \<^verbatim>\<open>NaN\<close>, which is not equal to
  itself, so the input is not taken for achromatic, and the text \<^verbatim>\<open>NaN\<close> is printed
  for each channel.  The result is not a colour.
\<close>

theorem accent_of_non_hex_digits: "getAccentColor ''#GGGGGG'' = ''#NaNNaNNaN''"
  by code_simp

text \<open>
  Claim C8: the input above passes the code's own check of the format, and the result is
  not the gold fallback that the code documents for an invalid base colour.
\<close>

theorem accent_of_non_hex_digits_witness:
  "take 1 ''#GGGGGG'' = ''#'' \<and> length ''#GGGGGG'' = 7 \<and> getAccentColor ''#GGGGGG'' \<noteq> ''#FFD700''"
  using accent_of_non_hex_digits by simp

section \<open>Properties of the text variations\<close>

subsection \<open>The fallback bank\<close>

lemma substring_take: "substring s 0 n = take n s"
  by (simp add: substring_def)

lemma select_language:
  "nullish_or (get_property [(''English'', e), (''Spanish'', s)] l)
              (get_property [(''English'', e), (''Spanish'', s)] ''English'') =
     (if l = ''English'' then Own e else if l = ''Spanish'' then Own s
      else if l \<in> set object_prototype_keys then Inherited (inherited l) else Own e)"
  by (simp add: get_property_def nullish_or_def)

lemma language_table:
  "(\<exists>b. nullish_or (get_property [(''English'', e), (''Spanish'', s)] l)
              (get_property [(''English'', e), (''Spanish'', s)] ''English'') = Inherited b)
   \<or> nullish_or (get_property [(''English'', e), (''Spanish'', s)] l)
              (get_property [(''English'', e), (''Spanish'', s)] ''English'') = Own e
   \<or> nullish_or (get_property [(''English'', e), (''Spanish'', s)] l)
              (get_property [(''English'', e), (''Spanish'', s)] ''English'') = Own s"
  by (simp add: select_language)

lemma baseTones_enum:
  assumes "t \<in> set baseTones"
  shows "t = ''urgent'' \<or> t = ''elegant'' \<or> t = ''casual'' \<or> t = ''fun'' \<or> t = ''exclusive''
       \<or> t = ''friendly'' \<or> t = ''informative'' \<or> t = ''inspiring''"
  using assms by (simp add: baseTones_def)

lemma baseTones_not_inherited:
  assumes "t \<in> set baseTones"
  shows "optional_member (Inherited b) t = Inr Nullish"
  using baseTones_enum [OF assms]
  by (cases b;
      elim disjE;
      simp add: optional_member_def builtin_member_def function_member_def
        object_prototype_keys_def function_prototype_keys_def object_static_keys_def)

lemma title_member:
  assumes "t \<in> set baseTones"
  shows "\<exists>v s. optional_member
                 (nullish_or (get_property (titles config) language)
                             (get_property (titles config) ''English'')) t = Inr v
              \<and> coalesce v
                  (Text (''Discover '' @ product' config @ '' Now!'')) = Text s
              \<and> s \<noteq> []"
proof -
  let ?table = "nullish_or (get_property (titles config) language)
                           (get_property (titles config) ''English'')"
  from language_table [of "titles_English config" "titles_Spanish config" language]
  have "(\<exists>b. ?table = Inherited b) \<or> ?table = Own (titles_English config)
        \<or> ?table = Own (titles_Spanish config)"
    unfolding titles_def .
  then show ?thesis
  proof (elim disjE exE)
    fix b
    assume "?table = Inherited b"
    then show ?thesis by (simp add: baseTones_not_inherited [OF assms] coalesce_def)
  next
    assume "?table = Own (titles_English config)"
    then show ?thesis
      using baseTones_enum [OF assms]
      by (elim disjE;
          simp add: titles_English_def optional_member_def get_property_def coalesce_def)
  next
    assume "?table = Own (titles_Spanish config)"
    then show ?thesis
      using baseTones_enum [OF assms]
      by (elim disjE;
          simp add: titles_Spanish_def optional_member_def get_property_def coalesce_def)
  qed
qed

lemma subtitle_member:
  assumes "t \<in> set baseTones"
  shows "\<exists>v s. optional_member
                 (nullish_or (get_property (subtitles config) language)
                             (get_property (subtitles config) ''English'')) t = Inr v
              \<and> truthy_or v
                  (Text (''Take advantage of our offer on '' @ product' config @ ''.'')) = Text s
              \<and> s \<noteq> []"
proof -
  let ?table = "nullish_or (get_property (subtitles config) language)
                           (get_property (subtitles config) ''English'')"
  from language_table [of "subtitles_English config" "subtitles_Spanish config" language]
  have "(\<exists>b. ?table = Inherited b) \<or> ?table = Own (subtitles_English config)
        \<or> ?table = Own (subtitles_Spanish config)"
    unfolding subtitles_def .
  then show ?thesis
  proof (elim disjE exE)
    fix b
    assume "?table = Inherited b"
    then show ?thesis by (simp add: baseTones_not_inherited [OF assms] truthy_or_def)
  next
    assume "?table = Own (subtitles_English config)"
    then show ?thesis
      using baseTones_enum [OF assms]
      by (elim disjE;
          simp add: subtitles_English_def optional_member_def get_property_def truthy_or_def)
  next
    assume "?table = Own (subtitles_Spanish config)"
    then show ?thesis
      using baseTones_enum [OF assms]
      by (elim disjE;
          simp add: subtitles_Spanish_def optional_member_def get_property_def truthy_or_def)
  qed
qed

lemma cta_member:
  assumes "t \<in> set baseTones"
  shows "\<exists>v s. optional_member
                 (nullish_or (get_property (ctas) language)
                             (get_property (ctas) ''English'')) t = Inr v
              \<and> truthy_or v
                  (Text ''More Info!'') = Text s
              \<and> s \<noteq> []"
proof -
  let ?table = "nullish_or (get_property (ctas) language)
                           (get_property (ctas) ''English'')"
  from language_table [of "ctas_English" "ctas_Spanish" language]
  have "(\<exists>b. ?table = Inherited b) \<or> ?table = Own (ctas_English)
        \<or> ?table = Own (ctas_Spanish)"
    unfolding ctas_def .
  then show ?thesis
  proof (elim disjE exE)
    fix b
    assume "?table = Inherited b"
    then show ?thesis by (simp add: baseTones_not_inherited [OF assms] truthy_or_def)
  next
    assume "?table = Own (ctas_English)"
    then show ?thesis
      using baseTones_enum [OF assms]
      by (elim disjE;
          simp add: ctas_English_def optional_member_def get_property_def truthy_or_def)
  next
    assume "?table = Own (ctas_Spanish)"
    then show ?thesis
      using baseTones_enum [OF assms]
      by (elim disjE;
          simp add: ctas_Spanish_def optional_member_def get_property_def truthy_or_def)
  qed
qed

lemma description_member:
  assumes "t \<in> set baseTones"
  shows "\<exists>v s. optional_member
                 (nullish_or (get_property (descriptions config) language)
                             (get_property (descriptions config) ''English'')) t = Inr v
              \<and> truthy_or v
                  (Text (''Take advantage of our incredible '' @ offer config @ '' on ''
                         @ product' config @ ''. '' @ validity config @ ''. Visit us at ''
                         @ location config @ ''.'')) = Text s
              \<and> s \<noteq> []"
proof -
  let ?table = "nullish_or (get_property (descriptions config) language)
                           (get_property (descriptions config) ''English'')"
  from language_table [of "descriptions_English config" "descriptions_Spanish config" language]
  have "(\<exists>b. ?table = Inherited b) \<or> ?table = Own (descriptions_English config)
        \<or> ?table = Own (descriptions_Spanish config)"
    unfolding descriptions_def .
  then show ?thesis
  proof (elim disjE exE)
    fix b
    assume "?table = Inherited b"
    then show ?thesis by (simp add: baseTones_not_inherited [OF assms] truthy_or_def)
  next
    assume "?table = Own (descriptions_English config)"
    then show ?thesis
      using baseTones_enum [OF assms]
      by (elim disjE;
          simp add: descriptions_English_def optional_member_def get_property_def truthy_or_def)
  next
    assume "?table = Own (descriptions_Spanish config)"
    then show ?thesis
      using baseTones_enum [OF assms]
      by (elim disjE;
          simp add: descriptions_Spanish_def optional_member_def get_property_def truthy_or_def)
  qed
qed

lemma generateFallbackTitle_ok:
  assumes "t \<in> set baseTones"
  shows "\<exists>s. generateFallbackTitle config t language = Inr s \<and> s \<noteq> [] \<and> length s \<le> 50"
proof -
  from title_member [OF assms, of config language] obtain v s where
    "optional_member
       (nullish_or (get_property (titles config) language)
                   (get_property (titles config) ''English'')) t = Inr v"
    and "coalesce v (Text (''Discover '' @ product' config @ '' Now!'')) = Text s"
    and "s \<noteq> []"
    by (elim exE conjE)
  then show ?thesis
    unfolding generateFallbackTitle_def Let_def
    by (simp add: bind_def substring_of_def substring_take)
qed

lemma generateFallbackSubtitle_ok:
  assumes "t \<in> set baseTones"
  shows "\<exists>s. generateFallbackSubtitle config t language = Inr s \<and> s \<noteq> [] \<and> length s \<le> 80"
proof -
  from subtitle_member [OF assms, of config language] obtain v s where
    "optional_member
       (nullish_or (get_property (subtitles config) language)
                   (get_property (subtitles config) ''English'')) t = Inr v"
    and "truthy_or v (Text (''Take advantage of our offer on '' @ product' config @ ''.''))
           = Text s"
    and "s \<noteq> []"
    by (elim exE conjE)
  then show ?thesis
    unfolding generateFallbackSubtitle_def Let_def
    by (simp add: bind_def substring_of_def substring_take)
qed

lemma generateFallbackCTA_ok:
  assumes "t \<in> set baseTones"
  shows "\<exists>s. generateFallbackCTA t language = Inr s \<and> s \<noteq> [] \<and> length s \<le> 30"
proof -
  from cta_member [OF assms, of language] obtain v s where
    "optional_member
       (nullish_or (get_property ctas language) (get_property ctas ''English'')) t = Inr v"
    and "truthy_or v (Text ''More Info!'') = Text s"
    and "s \<noteq> []"
    by (elim exE conjE)
  then show ?thesis
    unfolding generateFallbackCTA_def Let_def
    by (simp add: bind_def substring_of_def substring_take)
qed

lemma generateFallbackDescription_ok:
  assumes "t \<in> set baseTones"
  shows "\<exists>s. generateFallbackDescription config t i language = Inr s \<and> s \<noteq> []
            \<and> length s \<le> 200"
proof -
  from description_member [OF assms, of config language] obtain v s where
    "optional_member
       (nullish_or (get_property (descriptions config) language)
                   (get_property (descriptions config) ''English'')) t = Inr v"
    and "truthy_or v
           (Text (''Take advantage of our incredible '' @ offer config @ '' on ''
                  @ product' config @ ''. '' @ validity config @ ''. Visit us at ''
                  @ location config @ ''.'')) = Text s"
    and "s \<noteq> []"
    by (elim exE conjE)
  then show ?thesis
    unfolding generateFallbackDescription_def Let_def
    by (simp add: bind_def substring_of_def substring_take)
qed

lemma baseTones_nth: "baseTones ! (i mod length baseTones) \<in> set baseTones"
  by (rule nth_mem) (simp add: baseTones_def)

lemma fallback_slot_ok:
  "\<exists>v. fallback_slot config language i = Inr v \<and> tone v = baseTones ! (i mod length baseTones)
       \<and> populated v \<and> within_caps v"
proof -
  define t where "t = baseTones ! (i mod length baseTones)"
  have t: "t \<in> set baseTones" unfolding t_def by (rule baseTones_nth)
  then have nonempty: "t \<noteq> []" by (auto dest: baseTones_enum)
  from generateFallbackTitle_ok [OF t, of config language] obtain a where
    a: "generateFallbackTitle config t language = Inr a" "a \<noteq> []" "length a \<le> 50" by blast
  from generateFallbackSubtitle_ok [OF t, of config language] obtain b where
    b: "generateFallbackSubtitle config t language = Inr b" "b \<noteq> []" "length b \<le> 80" by blast
  from generateFallbackCTA_ok [OF t, of language] obtain c where
    c: "generateFallbackCTA t language = Inr c" "c \<noteq> []" "length c \<le> 30" by blast
  from generateFallbackDescription_ok [OF t, of config i language] obtain d where
    d: "generateFallbackDescription config t i language = Inr d" "d \<noteq> []" "length d \<le> 200"
    by blast
  have "fallback_slot config language i =
          Inr \<lparr>title = a, subtitle = b, callToAction = c, description = d, tone = t\<rparr>"
    by (simp add: fallback_slot_def Let_def t_def [symmetric] a(1) b(1) c(1) d(1) bind_def)
  then show ?thesis
    using a b c d nonempty by (simp add: populated_def within_caps_def t_def)
qed

lemma fallback_loop_ok:
  "\<exists>vs. fallback_loop config quantity language i acc = Inr (acc @ vs)
        \<and> length vs = nat (quantity - int i)
        \<and> (\<forall>k<length vs. fallback_slot config language (i + k) = Inr (vs ! k))"
proof (induction config quantity language i acc rule: fallback_loop.induct)
  case (1 config quantity language i acc)
  show ?case
  proof (cases "int i < quantity")
    case False
    then show ?thesis by (simp add: fallback_loop.simps [of config quantity language i acc])
  next
    case True
    from fallback_slot_ok [of config language i] obtain v where
      v: "fallback_slot config language i = Inr v" by blast
    from "1.IH" [OF True v] obtain vs where
      run: "fallback_loop config quantity language (Suc i) (acc @ [v]) = Inr ((acc @ [v]) @ vs)"
      and len: "length vs = nat (quantity - int (Suc i))"
      and each: "\<forall>k<length vs. fallback_slot config language (Suc i + k) = Inr (vs ! k)"
      by blast
    have "fallback_loop config quantity language i acc = Inr (acc @ (v # vs))"
      using True v run by (simp add: fallback_loop.simps [of config quantity language i acc])
    moreover have "length (v # vs) = nat (quantity - int i)" using True len by simp
    moreover have "\<forall>k<length (v # vs). fallback_slot config language (i + k) = Inr ((v # vs) ! k)"
    proof (intro allI impI)
      fix k assume k: "k < length (v # vs)"
      show "fallback_slot config language (i + k) = Inr ((v # vs) ! k)"
      proof (cases k)
        case 0
        then show ?thesis using v by simp
      next
        case (Suc j)
        with k each show ?thesis by simp
      qed
    qed
    ultimately show ?thesis by blast
  qed
qed

text \<open>
  A language that is the name of a member of \<^verbatim>\<open>Object.prototype\<close> selects a built-in
  object in place of a table.  None of the eight tones is a member of one, so the bank
  falls back on its default texts there; a tone outside the eight, which the bank never
  passes, could find a member: the name of the function \<^verbatim>\<open>Object\<close> is a text and
  is returned, its \<^verbatim>\<open>length\<close> and its method \<^verbatim>\<open>keys\<close> are no texts and
  \<^verbatim>\<open>substring\<close> throws, and a \<^verbatim>\<open>length\<close> of zero or a prototype of
  \<^verbatim>\<open>null\<close> is falsy and gives the default text.
\<close>

lemma built_in_tables:
  "generateFallbackTitle config ''name'' ''constructor'' = Inr ''Object''"
  "generateFallbackTitle config ''length'' ''constructor'' = Inl TypeError"
  "generateFallbackCTA ''keys'' ''constructor'' = Inl TypeError"
  "generateFallbackCTA ''length'' ''toString'' = Inr ''More Info!''"
  "generateFallbackCTA ''__proto__'' ''__proto__'' = Inr ''More Info!''"
  by (simp_all add: generateFallbackTitle_def generateFallbackCTA_def titles_def ctas_def
      get_property_def nullish_or_def object_prototype_keys_def inherited_def optional_member_def
      builtin_member_def function_member_def object_static_keys_def function_prototype_keys_def
      method_length_def bind_def coalesce_def truthy_or_def substring_of_def substring_def)

text \<open>
  Claim C4.  For every brief, every language and every quantity of at least one, the
  fallback bank returns exactly \<open>quantity\<close> text variations and throws nothing; slot
  \<open>i\<close> has the tone at index \<open>i mod 8\<close> of the fixed list of tones, all five of its
  fields are populated, and its title, subtitle, call to action and description have at
  most 50, 80, 30 and 200 characters.
\<close>

theorem fallback_bank_complete:
  assumes "1 \<le> quantity"
  shows "\<exists>vs. generateFallbackVariations config quantity language = Inr vs
           \<and> length vs = nat quantity
           \<and> (\<forall>i<nat quantity. tone (vs ! i) = baseTones ! (i mod 8)
                  \<and> populated (vs ! i) \<and> within_caps (vs ! i))"
proof -
  from fallback_loop_ok [of config quantity language 0 "[]"] obtain vs where
    run: "fallback_loop config quantity language 0 [] = Inr vs"
    and len: "length vs = nat quantity"
    and each: "\<forall>k<length vs. fallback_slot config language k = Inr (vs ! k)"
    by auto
  have "vs \<noteq> []" using assms len by auto
  then have "generateFallbackVariations config quantity language = Inr vs"
    by (simp add: generateFallbackVariations_def run bind_def)
  moreover have "tone (vs ! i) = baseTones ! (i mod 8) \<and> populated (vs ! i) \<and> within_caps (vs ! i)"
    if "i < nat quantity" for i
  proof -
    from that each len have "fallback_slot config language i = Inr (vs ! i)" by simp
    with fallback_slot_ok [of config language i] show ?thesis by (simp add: baseTones_def)
  qed
  ultimately show ?thesis using len by blast
qed

text \<open>
  Claim C4 at quantity 3: three variations, with the tones urgent, elegant and casual.
\<close>

theorem fallback_bank_complete_witness:
  "\<exists>vs. generateFallbackVariations sample_config 3 ''English'' = Inr vs \<and> length vs = 3
        \<and> tone (vs ! 0) = ''urgent'' \<and> tone (vs ! 1) = ''elegant'' \<and> tone (vs ! 2) = ''casual''
        \<and> populated (vs ! 0) \<and> populated (vs ! 1) \<and> populated (vs ! 2)
        \<and> within_caps (vs ! 0) \<and> within_caps (vs ! 1) \<and> within_caps (vs ! 2)"
proof -
  have q: "(1::int) \<le> 3" by simp
  from fallback_bank_complete [OF q, of sample_config "''English''"] show ?thesis
  proof (elim exE conjE)
    fix vs
    assume run: "generateFallbackVariations sample_config 3 ''English'' = Inr vs"
      and len: "length vs = nat 3"
      and each: "\<forall>i<nat 3. tone (vs ! i) = baseTones ! (i mod 8)
                    \<and> populated (vs ! i) \<and> within_caps (vs ! i)"
    from each have
      e0: "tone (vs ! 0) = baseTones ! (0 mod 8) \<and> populated (vs ! 0) \<and> within_caps (vs ! 0)" and
      e1: "tone (vs ! 1) = baseTones ! (1 mod 8) \<and> populated (vs ! 1) \<and> within_caps (vs ! 1)" and
      e2: "tone (vs ! 2) = baseTones ! (2 mod 8) \<and> populated (vs ! 2) \<and> within_caps (vs ! 2)"
      by simp_all
    from e0 e1 e2 have tones:
      "tone (vs ! 0) = ''urgent''" "tone (vs ! 1) = ''elegant''" "tone (vs ! 2) = ''casual''"
      by (simp_all add: baseTones_def)
    from len have l3: "length vs = 3" by simp
    from e0 e1 e2 show ?thesis
      by (intro exI [of _ vs] conjI run l3 tones) simp_all
  qed
qed

subsection \<open>Acquisition\<close>

text \<open>
  Acquisition never throws: whatever the generative source replies, and for every
  quantity, the result is a list of text variations.
\<close>

lemma generateFallbackVariations_total:
  "\<exists>vs. generateFallbackVariations config quantity language = Inr vs \<and> length vs = nat quantity"
proof -
  from fallback_loop_ok [of config quantity language 0 "[]"] obtain vs where
    run: "fallback_loop config quantity language 0 [] = Inr vs"
    and len: "length vs = nat quantity"
    by auto
  have "generateFallbackVariations config quantity language = Inr vs"
    using len by (auto simp: generateFallbackVariations_def run bind_def)
  with len show ?thesis by blast
qed

lemma TextGenerator_total:
  "\<exists>tvs. TextGenerator_generateVariations reply' config quantity language = Inr tvs"
proof (cases "request_variations reply'")
  case (Inl e)
  with generateFallbackVariations_total [of config quantity language] show ?thesis
    by (auto simp: TextGenerator_generateVariations_def)
next
  case (Inr vs)
  then show ?thesis by (simp add: TextGenerator_generateVariations_def)
qed

lemma sample_variations:
  "TextGenerator_generateVariations sample_reply config quantity language =
     Inr [first_variation, second_variation]"
  by (simp add: TextGenerator_generateVariations_def request_variations_def parseResponse_def
      sample_reply_def as_element_def essential_fields_def typeof_object_def has_key_def
      as_TextVariation_def member_text_def first_variation_def second_variation_def)

text \<open>
  For a quantity of at least one the result is empty in one case only: the reply parses
  to an array of which no element passes the filter.
\<close>

lemma acquisition_result:
  "TextGenerator_generateVariations reply' config quantity language =
     (case request_variations reply' of
        Inr variations \<Rightarrow> Inr variations
      | Inl e \<Rightarrow> generateFallbackVariations config quantity language)"
  by (simp add: TextGenerator_generateVariations_def)

lemma request_variations_empty:
  "request_variations reply' = Inr [] \<longleftrightarrow>
     (\<exists>es. reply' = Content (Json (Array es)) \<and> filter essential_fields es = [])"
  by (auto simp: request_variations_def parseResponse_def
      split: completion.splits content.splits parsed.splits)

lemma acquisition_empty_iff:
  assumes "1 \<le> quantity"
  shows "TextGenerator_generateVariations reply' config quantity language = Inr [] \<longleftrightarrow>
           (\<exists>es. reply' = Content (Json (Array es)) \<and> filter essential_fields es = [])"
proof (cases "request_variations reply'")
  case (Inl e)
  from generateFallbackVariations_total [of config quantity language] obtain vs where
    vs: "generateFallbackVariations config quantity language = Inr vs" "length vs = nat quantity"
    by (elim exE conjE)
  with assms have "vs \<noteq> []" by auto
  moreover have "request_variations reply' \<noteq> Inr []" using Inl by simp
  ultimately show ?thesis
    using Inl vs(1) request_variations_empty [of reply']
    by (simp add: TextGenerator_generateVariations_def)
next
  case (Inr variations)
  then show ?thesis
    using request_variations_empty [of reply']
    by (simp add: TextGenerator_generateVariations_def)
qed

text \<open>
  Claim C1 says that acquisition falls through to the fallback bank when the parsed
  sequence is empty, and never returns an empty list for a quantity of at least one.  A
  reply that parses to the empty array is returned as it is: \<^verbatim>\<open>parseResponse\<close> throws
  nothing, so the \<^verbatim>\<open>catch\<close> block that holds the fallback is not entered.  The same
  happens when the filter drops every element of the array.
\<close>

theorem empty_array_is_returned:
  "TextGenerator_generateVariations (Content (Json (Array []))) config 3 ''English'' = Inr []"
  by (simp add: TextGenerator_generateVariations_def request_variations_def parseResponse_def)

section \<open>Properties of the compositor\<close>

subsection \<open>Word wrap\<close>

text \<open>
  What the loop does guarantee: with a finite threshold \<open>k\<close>, every line has at most
  \<open>k + 1\<close> characters or is a single word of the text; and a word that is longer than
  the threshold is not dropped, it is a line by itself.
\<close>

lemma wrap_words_bound:
  assumes "list_all (\<lambda>l. int (length l) \<le> k + 1 \<or> l \<in> W) lines"
    and "currentLine = [] \<or> int (length currentLine) \<le> k + 1 \<or> currentLine \<in> W"
    and "set ws \<subseteq> W"
  shows "list_all (\<lambda>l. int (length l) \<le> k + 1 \<or> l \<in> W)
           (wrap_words (Finite k) ws currentLine lines)"
  using assms
proof (induction ws arbitrary: currentLine lines)
  case Nil
  then show ?case by auto
next
  case (Cons w ws)
  show ?case
  proof (cases "fits_in (length (currentLine @ w)) (Finite k)")
    case True
    then have "int (length (currentLine @ (if currentLine \<noteq> [] then '' '' else []) @ w)) \<le> k + 1"
      by (simp add: fits_in_def)
    with True Cons.prems show ?thesis
      by (simp add: Cons.IH)
  next
    case False
    have "list_all (\<lambda>l. int (length l) \<le> k + 1 \<or> l \<in> W)
            (if currentLine \<noteq> [] then lines @ [currentLine] else lines)"
      using Cons.prems(1,2) by auto
    moreover have "w = [] \<or> int (length w) \<le> k + 1 \<or> w \<in> W" using Cons.prems(3) by simp
    moreover have "set ws \<subseteq> W" using Cons.prems(3) by simp
    ultimately show ?thesis using False by (simp add: Cons.IH)
  qed
qed

lemma wrapped_lines_bound:
  assumes "charsPerLine maxWidth fontSize = Finite k"
  shows "list_all (\<lambda>l. int (length l) \<le> k + 1 \<or> l \<in> set (split t))
           (wrapped_lines t fontSize maxWidth)"
  unfolding wrapped_lines_def assms by (rule wrap_words_bound) simp_all

lemma fits_in_shorter: "fits_in n limit \<Longrightarrow> m \<le> n \<Longrightarrow> fits_in m limit"
  by (cases limit) (simp_all add: fits_in_def)

lemma wrap_words_keeps_lines: "set lines \<subseteq> set (wrap_words limit ws currentLine lines)"
proof (induction ws arbitrary: currentLine lines)
  case Nil
  show ?case by auto
next
  case (Cons w ws)
  have "set lines \<subseteq> set (if currentLine \<noteq> [] then lines @ [currentLine] else lines)" by auto
  also have "\<dots> \<subseteq> set (wrap_words limit ws w
                           (if currentLine \<noteq> [] then lines @ [currentLine] else lines))"
    by (rule Cons.IH)
  finally show ?case using Cons.IH by simp
qed

lemma long_line_is_emitted:
  assumes "\<not> fits_in (length currentLine) limit" and "currentLine \<noteq> []"
  shows "currentLine \<in> set (wrap_words limit ws currentLine lines)"
proof (cases ws)
  case Nil
  with assms(2) show ?thesis by simp
next
  case (Cons w rest)
  have "\<not> fits_in (length (currentLine @ w)) limit"
    using assms(1) fits_in_shorter [of "length (currentLine @ w)" limit "length currentLine"]
    by auto
  moreover have "currentLine \<in> set (lines @ [currentLine])" by simp
  ultimately show ?thesis
    using assms(2) wrap_words_keeps_lines [of "lines @ [currentLine]" limit rest w]
    by (auto simp: Cons)
qed

lemma long_word_alone:
  assumes "w \<in> set ws" and "\<not> fits_in (length w) limit" and "w \<noteq> []"
  shows "w \<in> set (wrap_words limit ws currentLine lines)"
  using assms(1)
proof (induction ws arbitrary: currentLine lines)
  case Nil
  then show ?case by simp
next
  case (Cons x xs)
  show ?case
  proof (cases "x = w")
    case True
    have "\<not> fits_in (length (currentLine @ w)) limit"
      using assms(2) fits_in_shorter [of "length (currentLine @ w)" limit "length w"] by auto
    then show ?thesis
      using long_line_is_emitted [OF assms(2,3)] by (simp add: True)
  next
    case False
    with Cons.prems have "w \<in> set xs" by simp
    then show ?thesis by (simp add: Cons.IH)
  qed
qed

lemma long_word_is_kept:
  assumes "w \<in> set (split t)" and "\<not> fits_in (length w) (charsPerLine maxWidth fontSize)"
    and "w \<noteq> []"
  shows "w \<in> set (wrapped_lines t fontSize maxWidth)"
  unfolding wrapped_lines_def using assms by (rule long_word_alone)

text \<open>
  Claim C2 says that no emitted line is longer than \<open>charsPerLine\<close> unless it is a single
  word longer than that.  The loop compares \<^verbatim>\<open>(currentLine + word).length\<close> with the
  threshold and then joins the two with a space, which the comparison did not count: with
  a threshold of 5, the words \<^verbatim>\<open>ab\<close> and \<^verbatim>\<open>cde\<close> are joined into a line of 6
  characters.
\<close>

theorem joined_line_exceeds_threshold:
  "split ''ab cde'' = [''ab'', ''cde''] \<and> charsPerLine 30 10 = Finite 5
   \<and> wrapped_lines ''ab cde'' 10 30 = [''ab cde''] \<and> length ''ab cde'' = 6"
  by code_simp

subsection \<open>Layout\<close>

lemma createMultilineText_first:
  assumes "createMultilineText t x (fl z) fontSize c maxWidth \<noteq> []"
  shows "run_y (hd (createMultilineText t x (fl z) fontSize c maxWidth)) = fl z"
proof (cases "wrapped_lines t fontSize maxWidth")
  case Nil
  with assms show ?thesis by (simp add: createMultilineText_def)
next
  case (Cons l ls)
  then show ?thesis
    by (simp add: createMultilineText_def jsmul_zero_left jsadd_zero)
qed

text \<open>
  Claim C9.  For every text variation and every canvas configuration, whatever the
  format it was made for, the title is anchored at a quarter of the canvas height, the
  first line of the description at 55% of the height and the call to action at 80% of
  the height; the title's font size is \<open>max(24, width \<times> 0.05)\<close> and so never below 24.
  The products are JavaScript's, in double precision.
\<close>

theorem layout_anchors:
  "run_y (title_text (createSVG text' config)) = jsmul (height config) (1 / 4)
   \<and> (description_lines (createSVG text' config) \<noteq> [] \<longrightarrow>
        run_y (hd (description_lines (createSVG text' config)))
          = jsmul (height config) (fl (55 / 100)))
   \<and> run_y (button_text (createSVG text' config)) = jsmul (height config) (fl (8 / 10))
   \<and> run_size (title_text (createSVG text' config)) = max 24 (jsmul (width config) (fl (5 / 100)))
   \<and> 24 \<le> run_size (title_text (createSVG text' config))"
proof -
  have d: "description_lines (createSVG text' config) =
             createMultilineText (description text') (jsdiv (width config) 2)
               (fl (height config * fl (55 / 100)))
               (max 14 (jsmul (width config) (fl (25 / 1000)))) (textColor config)
               (jsmul (width config) (fl (8 / 10)))"
    by (simp add: createSVG_def Let_def jsmul_def)
  have first: "description_lines (createSVG text' config) \<noteq> [] \<longrightarrow>
        run_y (hd (description_lines (createSVG text' config)))
          = jsmul (height config) (fl (55 / 100))"
    unfolding d by (auto simp: createMultilineText_first jsmul_def)
  have rest: "run_y (title_text (createSVG text' config)) = jsmul (height config) (1 / 4)"
    "run_y (button_text (createSVG text' config)) = jsmul (height config) (fl (8 / 10))"
    "run_size (title_text (createSVG text' config)) = max 24 (jsmul (width config) (fl (5 / 100)))"
    "24 \<le> run_size (title_text (createSVG text' config))"
    by (simp_all add: createSVG_def Let_def fl_quarter)
  from first rest show ?thesis by simp
qed

lemma sample_layout_numbers:
  "jsmul 630 (1 / 4) = 315 / 2" "jsmul 630 (fl (55 / 100)) = 693 / 2"
  "jsmul 630 (fl (8 / 10)) = 504" "jsmul 1200 (fl (5 / 100)) = 60"
  by code_simp+

lemma sample_description_lines:
  "wrapped_lines ''Enjoy an exclusive discount on Pizza.'' (max 14 (jsmul 1200 (fl (25 / 1000))))
     (jsmul 1200 (fl (8 / 10))) = [''Enjoy an exclusive discount on Pizza.'']"
  by code_simp

text \<open>
  Claim C9 on a canvas of 1200 by 630: the title at 157.5, the description at 346.5, the
  call to action at 504, the title in size 60.
\<close>

theorem layout_anchors_witness:
  "run_y (title_text (createSVG first_variation sample_canvas)) = 315 / 2
   \<and> description_lines (createSVG first_variation sample_canvas) \<noteq> []
   \<and> run_y (hd (description_lines (createSVG first_variation sample_canvas))) = 693 / 2
   \<and> run_y (button_text (createSVG first_variation sample_canvas)) = 504
   \<and> run_size (title_text (createSVG first_variation sample_canvas)) = 60"
proof -
  have ne: "description_lines (createSVG first_variation sample_canvas) \<noteq> []"
    using sample_description_lines
    by (simp add: createSVG_def Let_def createMultilineText_def first_variation_def
        sample_canvas_def)
  from layout_anchors [of first_variation sample_canvas] ne sample_layout_numbers
  show ?thesis by (simp add: sample_canvas_def)
qed

section \<open>Properties of the batch orchestrator\<close>

subsection \<open>The loops\<close>

lemma render_cell_result:
  assumes "tvs \<noteq> []"
  shows "render_cell raster config (cell_variation tvs i) (cell_color config i) i f state =
           \<lparr>flyers = flyers state @ (if raster i f then [expected_flyer config tvs i f] else []),
            requests = requests state @ [expected_request config tvs i f]\<rparr>"
  using assms
  by (cases state)
     (simp add: render_cell_def cell_variation_def generateFlyer_def Let_def
        expected_flyer_def expected_request_def)

lemma variations_loop_result:
  assumes "tvs \<noteq> []"
  shows "variations_loop raster config tvs quantity i state =
           \<lparr>flyers = flyers state
              @ map (\<lambda>j. expected_flyer config tvs j Facebook)
                  (filter (\<lambda>j. raster j Facebook) [i..<nat quantity]),
            requests = requests state
              @ map (\<lambda>j. expected_request config tvs j Facebook) [i..<nat quantity]\<rparr>"
  using assms
proof (induction raster config tvs quantity i state rule: variations_loop.induct)
  case (1 raster config tvs quantity i state)
  show ?case
  proof (cases "int i < quantity")
    case False
    then have empty: "[i..<nat quantity] = []" by simp
    have "variations_loop raster config tvs quantity i state = state"
      using False by (subst variations_loop.simps) simp
    then show ?thesis by (simp add: empty)
  next
    case True
    then have up: "[i..<nat quantity] = i # [Suc i..<nat quantity]"
      by (simp add: upt_conv_Cons)
    show ?thesis
      using True "1.IH" [OF True "1.prems"]
      by (simp add: variations_loop.simps [of raster config tvs quantity i state]
          render_cell_result [OF "1.prems"] up)
  qed
qed

lemma formats_fold_result:
  assumes "tvs \<noteq> []"
  shows "foldl (\<lambda>st f. render_cell raster config (cell_variation tvs i) (cell_color config i) i f st)
           state fs =
           \<lparr>flyers = flyers state @ map (expected_flyer config tvs i) (filter (raster i) fs),
            requests = requests state @ map (expected_request config tvs i) fs\<rparr>"
proof (induction fs arbitrary: state)
  case Nil
  show ?case by simp
next
  case (Cons f fs)
  show ?case
    by (simp only: foldl_Cons Cons.IH) (simp add: render_cell_result [OF assms])
qed

lemma all_formats_loop_result:
  assumes "tvs \<noteq> []"
  shows "all_formats_loop raster config tvs quantity i state =
           \<lparr>flyers = flyers state
              @ concat (map (\<lambda>j. map (expected_flyer config tvs j) (filter (raster j) formats))
                         [i..<nat quantity]),
            requests = requests state
              @ concat (map (\<lambda>j. map (expected_request config tvs j) formats) [i..<nat quantity])\<rparr>"
  using assms
proof (induction raster config tvs quantity i state rule: all_formats_loop.induct)
  case (1 raster config tvs quantity i state)
  show ?case
  proof (cases "int i < quantity")
    case False
    then have empty: "[i..<nat quantity] = []" by simp
    have "all_formats_loop raster config tvs quantity i state = state"
      using False by (subst all_formats_loop.simps) simp
    then show ?thesis by (simp add: empty)
  next
    case True
    then have up: "[i..<nat quantity] = i # [Suc i..<nat quantity]"
      by (simp add: upt_conv_Cons)
    show ?thesis
      using True "1.IH" [OF True "1.prems"]
      by (simp add: all_formats_loop.simps [of raster config tvs quantity i state]
          formats_fold_result [OF "1.prems"] up)
  qed
qed

lemma generateVariations_result:
  "FlyerGenerator_generateVariations env config quantity =
     (case ensureOutputDirectory (mkdir_outcome env) of
        Inl e \<Rightarrow> Inl e
      | Inr created \<Rightarrow>
          (case TextGenerator_generateVariations (reply env) config quantity ''English'' of
             Inl e \<Rightarrow> Inl e
           | Inr tvs \<Rightarrow>
               if tvs = [] then Inl NoTextVariations
               else Inr \<lparr>flyers = map (\<lambda>i. expected_flyer config tvs i Facebook)
                                     (filter (\<lambda>i. rasterizes env i Facebook) [0..<nat quantity]),
                         requests = map (\<lambda>i. expected_request config tvs i Facebook)
                                      [0..<nat quantity]\<rparr>))"
  by (simp add: FlyerGenerator_generateVariations_def bind_def variations_loop_result
      split: sum.splits)

lemma generateForAllFormats_result:
  "generateForAllFormats env config quantity =
     (case ensureOutputDirectory (mkdir_outcome env) of
        Inl e \<Rightarrow> Inl e
      | Inr created \<Rightarrow>
          (case TextGenerator_generateVariations (reply env) config quantity ''English'' of
             Inl e \<Rightarrow> Inl e
           | Inr tvs \<Rightarrow>
               if tvs = [] then Inl NoTextVariations
               else Inr \<lparr>flyers = concat (map (\<lambda>i. map (expected_flyer config tvs i)
                                                       (filter (rasterizes env i) formats))
                                             [0..<nat quantity]),
                         requests = concat (map (\<lambda>i. map (expected_request config tvs i) formats)
                                               [0..<nat quantity])\<rparr>))"
  by (simp add: generateForAllFormats_def bind_def all_formats_loop_result split: sum.splits)

lemma ensureOutputDirectory_cases:
  "ensureOutputDirectory outcome = Inr ()
   \<or> (\<exists>code. outcome = Raises code \<and> code \<noteq> ''EEXIST''
               \<and> ensureOutputDirectory outcome = Inl (MkdirFailed code))"
  by (cases outcome) (simp_all add: ensureOutputDirectory_def)

lemma cell_color_cycles:
  assumes "colors config \<noteq> []" and "list_all (\<lambda>c. c \<noteq> []) (colors config)"
  shows "cell_color config i = colors config ! (i mod length (colors config))"
proof -
  have "i mod length (colors config) < length (colors config)" using assms(1) by simp
  with assms(2) have "colors config ! (i mod length (colors config)) \<noteq> []"
    by (simp add: list_all_length)
  with assms(1) show ?thesis by (simp add: cell_color_def Let_def)
qed

subsection \<open>Failures\<close>

text \<open>
  Claim C3, as amended.  A batch either throws because the output directory could not be
  created (\<^verbatim>\<open>mkdir\<close> failed with a code other than \<^verbatim>\<open>EEXIST\<close>), or acquisition
  returns a list of text variations; if that list is empty the batch throws its one fatal
  error, and otherwise it returns: every cell from 0 to \<open>quantity - 1\<close> is requested from
  the rasteriser, and the flyers returned are those of the cells whose rasterisation
  succeeded, in order.  A failed cell is skipped and the cells after it are still
  processed.
\<close>

theorem batch_outcome:
  "(\<exists>code. mkdir_outcome env = Raises code \<and> code \<noteq> ''EEXIST''
       \<and> FlyerGenerator_generateVariations env config quantity = Inl (MkdirFailed code))
   \<or> (\<exists>tvs. TextGenerator_generateVariations (reply env) config quantity ''English'' = Inr tvs
         \<and> (if tvs = []
              then FlyerGenerator_generateVariations env config quantity = Inl NoTextVariations
              else FlyerGenerator_generateVariations env config quantity =
                     Inr \<lparr>flyers = map (\<lambda>i. expected_flyer config tvs i Facebook)
                                     (filter (\<lambda>i. rasterizes env i Facebook) [0..<nat quantity]),
                          requests = map (\<lambda>i. expected_request config tvs i Facebook)
                                       [0..<nat quantity]\<rparr>))"
proof -
  from TextGenerator_total [of "reply env" config quantity "''English''"] obtain tvs where
    tvs: "TextGenerator_generateVariations (reply env) config quantity ''English'' = Inr tvs"
    by blast
  from ensureOutputDirectory_cases [of "mkdir_outcome env"] show ?thesis
  proof
    assume "ensureOutputDirectory (mkdir_outcome env) = Inr ()"
    then show ?thesis using tvs by (simp add: generateVariations_result)
  next
    assume "\<exists>code. mkdir_outcome env = Raises code \<and> code \<noteq> ''EEXIST''
              \<and> ensureOutputDirectory (mkdir_outcome env) = Inl (MkdirFailed code)"
    then show ?thesis by (auto simp: generateVariations_result)
  qed
qed

text \<open>
  Claim C3 on a batch of three cells whose second rasterisation fails: all three cells
  are requested, and the first and the third flyer are returned.
\<close>

theorem batch_outcome_witness:
  "FlyerGenerator_generateVariations flaky_environment sample_config 3 =
     Inr \<lparr>flyers = [expected_flyer sample_config [first_variation, second_variation] 0 Facebook,
                    expected_flyer sample_config [first_variation, second_variation] 2 Facebook],
          requests = [expected_request sample_config [first_variation, second_variation] 0 Facebook,
                      expected_request sample_config [first_variation, second_variation] 1 Facebook,
                      expected_request sample_config [first_variation, second_variation] 2 Facebook]\<rparr>"
  using batch_outcome [of flaky_environment sample_config 3]
  by (simp add: flaky_environment_def sample_variations second_fails_def eval_nat_numeral)

text \<open>
  Claim C3 as it is stated, that the batch throws only when the acquired list of text
  variations is empty, fails when the output directory cannot be created: the batch
  throws, though acquisition would return two text variations.
\<close>

theorem mkdir_failure_aborts_batch:
  "FlyerGenerator_generateVariations readonly_environment sample_config 2 = Inl (MkdirFailed ''EACCES'')
   \<and> TextGenerator_generateVariations (reply readonly_environment) sample_config 2 ''English''
       = Inr [first_variation, second_variation]"
  by (simp add: generateVariations_result readonly_environment_def ensureOutputDirectory_def
      sample_variations)

subsection \<open>Cycling\<close>

text \<open>
  Claim C5.  In a batch that gets under way (the output directory exists, the list of
  text variations is not empty) over a brief whose colour list is not empty and holds no
  empty string, cell \<open>i\<close> uses the variation at index \<open>i mod variations.length\<close> and the
  colour at index \<open>i mod colors.length\<close>: in the rasterisation request of every cell and
  in the flyer of every cell that rendered, for the single-format entry point and, three
  times per cell, for the entry point that renders all formats.
\<close>

theorem cells_cycle:
  assumes "ensureOutputDirectory (mkdir_outcome env) = Inr ()"
    and "TextGenerator_generateVariations (reply env) config quantity ''English'' = Inr tvs"
    and "tvs \<noteq> []"
    and "colors config \<noteq> []"
    and "list_all (\<lambda>c. c \<noteq> []) (colors config)"
  shows "\<exists>b a. FlyerGenerator_generateVariations env config quantity = Inr b
           \<and> generateForAllFormats env config quantity = Inr a
           \<and> map (\<lambda>r. (request_text r, backgroundColor (request_canvas r))) (requests b) =
               map (\<lambda>i. (tvs ! (i mod length tvs), colors config ! (i mod length (colors config))))
                 [0..<nat quantity]
           \<and> map (\<lambda>f. (textVariation f, color f)) (flyers b) =
               map (\<lambda>i. (tvs ! (i mod length tvs), colors config ! (i mod length (colors config))))
                 (filter (\<lambda>i. rasterizes env i Facebook) [0..<nat quantity])
           \<and> map (\<lambda>r. (request_text r, backgroundColor (request_canvas r))) (requests a) =
               concat (map (\<lambda>i. replicate 3 (tvs ! (i mod length tvs),
                                                 colors config ! (i mod length (colors config))))
                         [0..<nat quantity])
           \<and> map (\<lambda>f. (textVariation f, color f, format f)) (flyers a) =
               concat (map (\<lambda>i. map (\<lambda>f. (tvs ! (i mod length tvs),
                                               colors config ! (i mod length (colors config)), f))
                                     (filter (rasterizes env i) formats))
                         [0..<nat quantity])"
proof -
  note cc = cell_color_cycles [OF assms(4,5)]
  have b: "FlyerGenerator_generateVariations env config quantity =
             Inr \<lparr>flyers = map (\<lambda>i. expected_flyer config tvs i Facebook)
                             (filter (\<lambda>i. rasterizes env i Facebook) [0..<nat quantity]),
                  requests = map (\<lambda>i. expected_request config tvs i Facebook) [0..<nat quantity]\<rparr>"
    using assms(1-3) by (simp add: generateVariations_result)
  have a: "generateForAllFormats env config quantity =
             Inr \<lparr>flyers = concat (map (\<lambda>i. map (expected_flyer config tvs i)
                                               (filter (rasterizes env i) formats))
                                     [0..<nat quantity]),
                  requests = concat (map (\<lambda>i. map (expected_request config tvs i) formats)
                                       [0..<nat quantity])\<rparr>"
    using assms(1-3) by (simp add: generateForAllFormats_result)
  show ?thesis
    unfolding a b
    by (simp add: o_def expected_request_def expected_flyer_def cell_canvas_def cc map_concat
        formats_def Let_def numeral_3_eq_3)
qed

lemma first_five: "[0..<nat 5] = [0, 1, 2, 3, 4]"
  by code_simp

text \<open>
  Claim C5 for a quantity of 5 and three colours: the fourth and the fifth cell use the
  first and the second colour again.
\<close>

theorem cells_cycle_witness:
  "\<exists>b. FlyerGenerator_generateVariations calm_environment sample_config 5 = Inr b
       \<and> map (\<lambda>r. (request_text r, backgroundColor (request_canvas r))) (requests b) =
           [(first_variation, ''#FF0000''), (second_variation, ''#00FF00''),
            (first_variation, ''#0000FF''), (second_variation, ''#FF0000''),
            (first_variation, ''#00FF00'')]
       \<and> map (\<lambda>f. (textVariation f, color f)) (flyers b) =
           [(first_variation, ''#FF0000''), (second_variation, ''#00FF00''),
            (first_variation, ''#0000FF''), (second_variation, ''#FF0000''),
            (first_variation, ''#00FF00'')]"
proof -
  define tvs where "tvs = [first_variation, second_variation]"
  have mk: "ensureOutputDirectory (mkdir_outcome calm_environment) = Inr ()"
    by (simp add: calm_environment_def ensureOutputDirectory_def)
  have tv: "TextGenerator_generateVariations (reply calm_environment) sample_config 5 ''English''
              = Inr tvs"
    by (simp add: calm_environment_def sample_variations tvs_def)
  have ne: "tvs \<noteq> []" by (simp add: tvs_def)
  have cs: "colors sample_config \<noteq> []" "list_all (\<lambda>c. c \<noteq> []) (colors sample_config)"
    by (simp_all add: sample_config_def)
  have all: "filter (\<lambda>i. rasterizes calm_environment i Facebook) [0..<nat 5] = [0..<nat 5]"
    by (simp add: calm_environment_def all_succeed_def)
  have cycle: "map (\<lambda>i. (tvs ! (i mod length tvs),
                          colors sample_config ! (i mod length (colors sample_config))))
                 [0..<nat 5] =
               [(first_variation, ''#FF0000''), (second_variation, ''#00FF00''),
                (first_variation, ''#0000FF''), (second_variation, ''#FF0000''),
                (first_variation, ''#00FF00'')]"
  proof -
    have l2: "length tvs = 2" by (simp add: tvs_def)
    have l3: "length (colors sample_config) = 3" by (simp add: sample_config_def)
    show ?thesis unfolding first_five l2 l3 by (simp add: tvs_def sample_config_def)
  qed
  from cells_cycle [OF mk tv ne cs] show ?thesis
  proof (elim exE conjE)
    fix b a
    assume b: "FlyerGenerator_generateVariations calm_environment sample_config 5 = Inr b"
      and r: "map (\<lambda>r. (request_text r, backgroundColor (request_canvas r))) (requests b) =
                map (\<lambda>i. (tvs ! (i mod length tvs),
                           colors sample_config ! (i mod length (colors sample_config))))
                  [0..<nat 5]"
      and f: "map (\<lambda>f. (textVariation f, color f)) (flyers b) =
                map (\<lambda>i. (tvs ! (i mod length tvs),
                           colors sample_config ! (i mod length (colors sample_config))))
                  (filter (\<lambda>i. rasterizes calm_environment i Facebook) [0..<nat 5])"
    show ?thesis
    proof (intro exI conjI)
      show "FlyerGenerator_generateVariations calm_environment sample_config 5 = Inr b"
        by (rule b)
      show "map (\<lambda>r. (request_text r, backgroundColor (request_canvas r))) (requests b) =
              [(first_variation, ''#FF0000''), (second_variation, ''#00FF00''),
               (first_variation, ''#0000FF''), (second_variation, ''#FF0000''),
               (first_variation, ''#00FF00'')]"
        unfolding r cycle ..
      show "map (\<lambda>f. (textVariation f, color f)) (flyers b) =
              [(first_variation, ''#FF0000''), (second_variation, ''#00FF00''),
               (first_variation, ''#0000FF''), (second_variation, ''#FF0000''),
               (first_variation, ''#00FF00'')]"
        unfolding f all cycle ..
    qed
  qed
qed

subsection \<open>The format of the single-format entry point\<close>

lemma generateVariations_facebook:
  assumes "FlyerGenerator_generateVariations env config quantity = Inr b"
  shows "list_all (\<lambda>f. format f = Facebook) (flyers b)"
    and "list_all (\<lambda>r. width (request_canvas r) = size_width (facebook (sizes config))
                     \<and> height (request_canvas r) = size_height (facebook (sizes config)))
           (requests b)"
proof -
  from TextGenerator_total [of "reply env" config quantity "''English''"] obtain tvs where
    tv: "TextGenerator_generateVariations (reply env) config quantity ''English'' = Inr tvs"
    by (elim exE)
  from assms have b: "b = \<lparr>flyers = map (\<lambda>i. expected_flyer config tvs i Facebook)
                                     (filter (\<lambda>i. rasterizes env i Facebook) [0..<nat quantity]),
                          requests = map (\<lambda>i. expected_request config tvs i Facebook)
                                       [0..<nat quantity]\<rparr>"
    by (simp add: generateVariations_result tv split: sum.splits if_splits)
  show "list_all (\<lambda>f. format f = Facebook) (flyers b)"
    unfolding b by (simp add: list_all_iff expected_flyer_def)
  show "list_all (\<lambda>r. width (request_canvas r) = size_width (facebook (sizes config))
                     \<and> height (request_canvas r) = size_height (facebook (sizes config)))
           (requests b)"
    unfolding b
    by (simp add: list_all_iff expected_request_def cell_canvas_def format_dimensions_def Let_def)
qed

text \<open>
  Claim C10.  Every flyer returned by \<^verbatim>\<open>generateVariations\<close> has the format
  \<^verbatim>\<open>facebook\<close>, and every canvas it has rasterised has the width and height of
  \<^verbatim>\<open>config.sizes.facebook\<close>; for \<^verbatim>\<open>generateCustomVariations\<close>, which delegates
  to it with a brief of its own, these are 1200 and 630.
\<close>

theorem facebook_only:
  "(FlyerGenerator_generateVariations env config quantity = Inr b \<longrightarrow>
      list_all (\<lambda>f. format f = Facebook) (flyers b)
      \<and> list_all (\<lambda>r. width (request_canvas r) = size_width (facebook (sizes config))
                      \<and> height (request_canvas r) = size_height (facebook (sizes config)))
            (requests b))
   \<and> (generateCustomVariations env productName offerText colorList quantity = Inr b' \<longrightarrow>
      list_all (\<lambda>f. format f = Facebook) (flyers b')
      \<and> list_all (\<lambda>r. width (request_canvas r) = 1200 \<and> height (request_canvas r) = 630)
            (requests b'))"
proof (intro conjI impI)
  assume "FlyerGenerator_generateVariations env config quantity = Inr b"
  then show "list_all (\<lambda>f. format f = Facebook) (flyers b)"
    and "list_all (\<lambda>r. width (request_canvas r) = size_width (facebook (sizes config))
                     \<and> height (request_canvas r) = size_height (facebook (sizes config)))
           (requests b)"
    by (rule generateVariations_facebook)+
next
  assume "generateCustomVariations env productName offerText colorList quantity = Inr b'"
  then have custom: "FlyerGenerator_generateVariations env
                       (quickConfig productName offerText colorList) quantity = Inr b'"
    by (simp add: generateCustomVariations_def)
  from generateVariations_facebook(1) [OF custom]
  show "list_all (\<lambda>f. format f = Facebook) (flyers b')" .
  from generateVariations_facebook(2) [OF custom]
  show "list_all (\<lambda>r. width (request_canvas r) = 1200 \<and> height (request_canvas r) = 630)
          (requests b')"
    by (simp add: quickConfig_def)
qed

text \<open>
  Claim C10 on a batch of two cells, through both entry points.
\<close>

theorem facebook_only_witness:
  "\<exists>b b'. FlyerGenerator_generateVariations calm_environment sample_config 2 = Inr b
       \<and> length (flyers b) = 2
       \<and> list_all (\<lambda>f. format f = Facebook) (flyers b)
       \<and> list_all (\<lambda>r. width (request_canvas r) = 1200 \<and> height (request_canvas r) = 630)
             (requests b)
       \<and> generateCustomVariations calm_environment ''Pizza'' ''50% off'' None 2 = Inr b'
       \<and> length (flyers b') = 2
       \<and> list_all (\<lambda>f. format f = Facebook) (flyers b')
       \<and> list_all (\<lambda>r. width (request_canvas r) = 1200 \<and> height (request_canvas r) = 630)
             (requests b')"
proof -
  define tvs where "tvs = [first_variation, second_variation]"
  define b where "b = \<lparr>flyers = map (\<lambda>i. expected_flyer sample_config tvs i Facebook) [0, 1],
                        requests = map (\<lambda>i. expected_request sample_config tvs i Facebook) [0, 1]\<rparr>"
  define b' where "b' = \<lparr>flyers = map (\<lambda>i. expected_flyer (quickConfig ''Pizza'' ''50% off'' None)
                                            tvs i Facebook) [0, 1],
                         requests = map (\<lambda>i. expected_request (quickConfig ''Pizza'' ''50% off'' None)
                                              tvs i Facebook) [0, 1]\<rparr>"
  have two: "[0..<nat 2] = [0, 1]" by code_simp
  have run: "FlyerGenerator_generateVariations calm_environment sample_config 2 = Inr b"
    unfolding generateVariations_result two
    by (simp add: calm_environment_def ensureOutputDirectory_def sample_variations
        all_succeed_def b_def tvs_def)
  have run': "generateCustomVariations calm_environment ''Pizza'' ''50% off'' None 2 = Inr b'"
    unfolding generateCustomVariations_def generateVariations_result two
    by (simp add: calm_environment_def ensureOutputDirectory_def sample_variations
        all_succeed_def b'_def tvs_def)
  have lb: "length (flyers b) = 2" and lb': "length (flyers b') = 2"
    by (simp_all add: b_def b'_def)
  from facebook_only [of calm_environment sample_config 2 b "''Pizza''" "''50% off''" None b']
    run run'
  have fb: "list_all (\<lambda>f. format f = Facebook) (flyers b)"
    and dims: "list_all (\<lambda>r. width (request_canvas r) = size_width (facebook (sizes sample_config))
                     \<and> height (request_canvas r) = size_height (facebook (sizes sample_config)))
           (requests b)"
    and fb': "list_all (\<lambda>f. format f = Facebook) (flyers b')"
    and dims': "list_all (\<lambda>r. width (request_canvas r) = 1200 \<and> height (request_canvas r) = 630)
            (requests b')"
    by simp_all
  from dims have dims1200: "list_all (\<lambda>r. width (request_canvas r) = 1200
                                   \<and> height (request_canvas r) = 630) (requests b)"
    by (simp add: sample_config_def)
  show ?thesis
    by (intro exI [of _ b] exI [of _ b'] conjI run run' lb lb' fb fb' dims1200 dims')
qed

end
